theory Spec2Isabelle
  imports Main "HOL-Library.AList"
begin

section \<open>Strings and values of the host language\<close>

text \<open>
  A string is a list of 8-bit characters: the model covers strings whose UTF-16 code
  units are all below 256. \<^verbatim>\<open>String.prototype.trim\<close> and the class \<^verbatim>\<open>\s\<close> of regular
  expressions remove the same white space; in that range it is tab, line feed, vertical
  tab, form feed, carriage return, space and the no-break space.
\<close>

text \<open>The double quote, the single quote and the backslash, as one-character strings.\<close>

abbreviation dquote :: string where "dquote \<equiv> [CHR 0x22]"
abbreviation squote :: string where "squote \<equiv> [CHR 0x27]"
abbreviation backslash :: string where "backslash \<equiv> [CHR 0x5C]"

definition isWhiteSpace :: "char \<Rightarrow> bool" where
  "isWhiteSpace c =
     (c \<in> set [CHR 0x09, CHR 0x0A, CHR 0x0B, CHR 0x0C, CHR 0x0D, CHR 0x20, CHR 0xA0])"

definition trim :: "string \<Rightarrow> string" where
  "trim s = rev (dropWhile isWhiteSpace (rev (dropWhile isWhiteSpace s)))"

text \<open>\<^verbatim>\<open>s.includes(sub)\<close>: \<open>sub\<close> occurs in \<open>s\<close> as a contiguous substring.\<close>

fun String_includes :: "string \<Rightarrow> string \<Rightarrow> bool" where
  "String_includes [] sub = (sub = [])"
| "String_includes (c # cs) sub =
     (take (length sub) (c # cs) = sub \<or> String_includes cs sub)"

text \<open>
  \<^verbatim>\<open>s.replace(/c/g, r)\<close> for a pattern that is one literal character: every occurrence of
  the character is replaced by \<open>r\<close>.
\<close>

definition replaceAllChar :: "char \<Rightarrow> string \<Rightarrow> string \<Rightarrow> string" where
  "replaceAllChar c r s = concat (map (\<lambda>x. if x = c then r else [x]) s)"

text \<open>
  A number inside a template literal. Line numbers, process ids and clock values are
  integers; the model prints them in decimal, as JavaScript does for integers of
  magnitude below \<open>10\<^sup>2\<^sup>1\<close>.
\<close>

definition digitChar :: "nat \<Rightarrow> char" where
  "digitChar d = ''0123456789'' ! d"

fun showNat :: "nat \<Rightarrow> string" where
  "showNat n = (if n < 10 then [digitChar n] else showNat (n div 10) @ [digitChar (n mod 10)])"

definition showInt :: "int \<Rightarrow> string" where
  "showInt i = (if i < 0 then CHR ''-'' # showNat (nat (- i)) else showNat (nat i))"

section \<open>Cache store: class CacheManager\<close>

text \<open>
  The cache manager keeps two JavaScript \<^verbatim>\<open>Map\<close>s, \<^verbatim>\<open>cache\<close> and \<^verbatim>\<open>accessTimes\<close>.
  A JavaScript Map iterates in insertion order, \<^verbatim>\<open>Map.set\<close> on a key already present
  replaces the value in place and on a new key appends, \<^verbatim>\<open>Map.delete\<close> removes the key.
  Both maps are association lists here, written with \<open>AList.update\<close> (replace in place or
  append), \<open>AList.delete\<close> and \<open>map_of\<close>; a Map never holds a key twice, which is the
  predicate \<open>distinct (map fst m)\<close> wherever a statement counts entries.

  Times and durations are milliseconds (\<^verbatim>\<open>Date.now()\<close>), modelled as \<open>int\<close>. Every method
  takes the value that \<^verbatim>\<open>Date.now()\<close> returns during the call as its first argument.
  The \<^verbatim>\<open>try/catch\<close> blocks of \<^verbatim>\<open>set\<close>, \<^verbatim>\<open>get\<close> and \<^verbatim>\<open>delete\<close> guard Map operations and
  logging that do not throw, so their \<^verbatim>\<open>catch\<close> branches have no counterpart. The
  floating-point field \<^verbatim>\<open>metrics.cacheHitRate\<close> is a function of the counters in
  \<^verbatim>\<open>stats\<close> and is not stored; \<^verbatim>\<open>metrics.lastUpdated\<close> is.
\<close>

record 'a CacheEntry =
  data :: 'a
  timestamp :: int
  ttl :: int
  key :: string

record CacheManagerConfig =
  settingsCacheTtl :: int
  projectPathCacheTtl :: int
  editorStateCacheTtl :: int
  maxCacheSize :: int

record CacheStats =
  totalRequests :: nat
  cacheHits :: nat
  cacheMisses :: nat
  evictions :: nat

record 'a CacheManager =
  cache :: "(string \<times> 'a CacheEntry) list"
  accessTimes :: "(string \<times> int) list"
  config :: CacheManagerConfig
  stats :: CacheStats
  lastUpdated :: int

definition DEFAULT_CONFIG :: CacheManagerConfig where
  "DEFAULT_CONFIG =
     \<lparr>settingsCacheTtl = 1000, projectPathCacheTtl = 5000,
      editorStateCacheTtl = 5000, maxCacheSize = 100\<rparr>"

definition new_CacheManager :: "int \<Rightarrow> CacheManagerConfig \<Rightarrow> 'a CacheManager" where
  "new_CacheManager now cfg =
     \<lparr>cache = [], accessTimes = [], config = cfg,
      stats = \<lparr>totalRequests = 0, cacheHits = 0, cacheMisses = 0, evictions = 0\<rparr>,
      lastUpdated = now\<rparr>"

definition isExpired :: "int \<Rightarrow> 'a CacheEntry \<Rightarrow> bool" where
  "isExpired now entry = (now - timestamp entry > ttl entry)"

definition updateCacheHitRate :: "int \<Rightarrow> 'a CacheManager \<Rightarrow> 'a CacheManager" where
  "updateCacheHitRate now cm = cm\<lparr>lastUpdated := now\<rparr>"

definition CacheManager_delete :: "'a CacheManager \<Rightarrow> string \<Rightarrow> bool \<times> 'a CacheManager" where
  "CacheManager_delete cm k =
     (map_of (cache cm) k \<noteq> None,
      cm\<lparr>cache := AList.delete k (cache cm),
         accessTimes := AList.delete k (accessTimes cm)\<rparr>)"

text \<open>
  The loop of \<^verbatim>\<open>evictLeastRecentlyUsed\<close>: \<^verbatim>\<open>oldestKey\<close> starts undefined and
  \<^verbatim>\<open>oldestTime\<close> starts at \<^verbatim>\<open>Date.now()\<close>; a key replaces the candidate only when its
  access time is strictly smaller.
\<close>

definition oldestScan :: "int \<Rightarrow> (string \<times> int) list \<Rightarrow> string option \<times> int" where
  "oldestScan now ats =
     fold (\<lambda>(k, accessTime) (oldestKey, oldestTime).
             if accessTime < oldestTime then (Some k, accessTime)
             else (oldestKey, oldestTime))
          ats (None, now)"

text \<open>\<^verbatim>\<open>if (oldestKey)\<close> is a truthiness test: the empty string is falsy.\<close>

definition evictLeastRecentlyUsed :: "int \<Rightarrow> 'a CacheManager \<Rightarrow> 'a CacheManager" where
  "evictLeastRecentlyUsed now cm =
     (case fst (oldestScan now (accessTimes cm)) of
        None \<Rightarrow> cm
      | Some oldestKey \<Rightarrow>
          if oldestKey = [] then cm
          else (let cm' = snd (CacheManager_delete cm oldestKey)
                in cm'\<lparr>stats := (stats cm')\<lparr>evictions := Suc (evictions (stats cm'))\<rparr>\<rparr>))"

text \<open>
  \<^verbatim>\<open>ttl || this.config.settingsCacheTtl\<close>: an omitted \<^verbatim>\<open>ttl\<close> and the falsy \<^verbatim>\<open>0\<close> both
  take the configured default.
\<close>

definition effectiveTtl :: "CacheManagerConfig \<Rightarrow> int option \<Rightarrow> int" where
  "effectiveTtl cfg ttl_opt =
     (case ttl_opt of
        None \<Rightarrow> settingsCacheTtl cfg
      | Some t \<Rightarrow> if t = 0 then settingsCacheTtl cfg else t)"

definition CacheManager_set ::
  "int \<Rightarrow> 'a CacheManager \<Rightarrow> string \<Rightarrow> 'a \<Rightarrow> int option \<Rightarrow> bool \<times> 'a CacheManager" where
  "CacheManager_set now cm k d ttl_opt =
     (let cm1 = (if int (length (cache cm)) \<ge> maxCacheSize (config cm)
                    \<and> map_of (cache cm) k = None
                 then evictLeastRecentlyUsed now cm else cm);
          entry = \<lparr>data = d, timestamp = now,
                   ttl = effectiveTtl (config cm) ttl_opt, key = k\<rparr>
      in (True, cm1\<lparr>cache := AList.update k entry (cache cm1),
                     accessTimes := AList.update k now (accessTimes cm1)\<rparr>))"

definition countRequest :: "'a CacheManager \<Rightarrow> 'a CacheManager" where
  "countRequest cm = cm\<lparr>stats := (stats cm)\<lparr>totalRequests := Suc (totalRequests (stats cm))\<rparr>\<rparr>"

definition countMiss :: "int \<Rightarrow> 'a CacheManager \<Rightarrow> 'a CacheManager" where
  "countMiss now cm =
     updateCacheHitRate now
       (cm\<lparr>stats := (stats cm)\<lparr>cacheMisses := Suc (cacheMisses (stats cm))\<rparr>\<rparr>)"

definition countHit :: "int \<Rightarrow> 'a CacheManager \<Rightarrow> 'a CacheManager" where
  "countHit now cm =
     updateCacheHitRate now
       (cm\<lparr>stats := (stats cm)\<lparr>cacheHits := Suc (cacheHits (stats cm))\<rparr>\<rparr>)"

definition CacheManager_get ::
  "int \<Rightarrow> 'a CacheManager \<Rightarrow> string \<Rightarrow> 'a option \<times> 'a CacheManager" where
  "CacheManager_get now cm0 k =
     (let cm = countRequest cm0
      in case map_of (cache cm) k of
           None \<Rightarrow> (None, countMiss now cm)
         | Some entry \<Rightarrow>
             if isExpired now entry
             then (None, countMiss now (snd (CacheManager_delete cm k)))
             else (Some (data entry),
                   countHit now (cm\<lparr>accessTimes := AList.update k now (accessTimes cm)\<rparr>)))"

definition CacheManager_has ::
  "int \<Rightarrow> 'a CacheManager \<Rightarrow> string \<Rightarrow> bool \<times> 'a CacheManager" where
  "CacheManager_has now cm k =
     (case map_of (cache cm) k of
        None \<Rightarrow> (False, cm)
      | Some entry \<Rightarrow>
          if isExpired now entry then (False, snd (CacheManager_delete cm k))
          else (True, cm))"

definition CacheManager_size :: "'a CacheManager \<Rightarrow> nat" where
  "CacheManager_size cm = length (cache cm)"

section \<open>Shared data types (types.ts)\<close>

datatype EditorType = IDEA | PYCHARM | WEBSTORM | JETBRAINS | VSCODE | CUSTOM

datatype JumpMode = JumpMode_IDEA | JumpMode_VSCODE

text \<open>
  The field \<^verbatim>\<open>id\<close> of \<^verbatim>\<open>EditorConfig\<close> is \<open>id_ec\<close> here, since \<open>id\<close> is the identity
  function of HOL. Optional fields are options.
\<close>

record EditorConfig =
  id_ec :: string
  name :: string
  path :: string
  isDefault :: bool
  type :: "EditorType option"
  jumpMode :: "JumpMode option"
  createdAt :: int
  updatedAt :: int

text \<open>
  \<^verbatim>\<open>validateExecutionParams\<close> tests \<^verbatim>\<open>!params.editor\<close>, so a caller may leave the editor
  out: the field is an option.
\<close>

record CommandExecutionParams =
  editor :: "EditorConfig option"
  filePath :: string
  lineNumber :: int
  columnNumber :: "int option"
  projectRoot :: string

record PlatformInfo =
  platform :: string
  isWindows :: bool
  isMacOS :: bool
  isLinux :: bool
  arch :: string
  version :: string

section \<open>Editor registry: class ConfigManager\<close>

text \<open>
  The registry is the list stored by the host under \<^verbatim>\<open>quickai.editors\<close>. \<^verbatim>\<open>getEditors\<close>
  returns a copy of the stored list (an absent setting reads as the empty list), the
  methods change that copy, and \<^verbatim>\<open>updateConfiguration\<close> stores it when the method gets that
  far. A method that throws before it stores leaves the registry as it was and returns
  \<^verbatim>\<open>false\<close> (or \<^verbatim>\<open>undefined\<close>). The host may refuse to store, which makes
  \<^verbatim>\<open>updateConfiguration\<close> throw: every method takes the host's answer as the argument
  \<open>stored\<close>. \<^verbatim>\<open>uuidv4()\<close> and \<^verbatim>\<open>Date.now()\<close> are arguments as well.
\<close>

definition toLowerChar :: "char \<Rightarrow> char" where
  "toLowerChar c =
     (let n = (of_char c :: nat)
      in if (65 \<le> n \<and> n \<le> 90) \<or> (192 \<le> n \<and> n \<le> 222 \<and> n \<noteq> 215)
         then char_of (n + 32) else c)"

definition toLowerCase :: "string \<Rightarrow> string" where
  "toLowerCase s = map toLowerChar s"

definition detectEditorType :: "string \<Rightarrow> EditorType" where
  "detectEditorType editorPath =
     (let p = toLowerCase editorPath
      in if String_includes p ''idea'' then IDEA
         else if String_includes p ''pycharm'' then PYCHARM
         else if String_includes p ''webstorm'' then WEBSTORM
         else if String_includes p ''jetbrains'' then JETBRAINS
         else CUSTOM)"

datatype ConfigIssue = NameEmpty | PathEmpty | PathNotComplete

record ConfigValidationResult =
  isValid :: bool
  errors :: "ConfigIssue list"
  warnings :: "ConfigIssue list"

definition validateEditorConfig :: "EditorConfig \<Rightarrow> ConfigValidationResult" where
  "validateEditorConfig c =
     (let errs = (if name c = [] \<or> trim (name c) = [] then [NameEmpty] else [])
                 @ (if path c = [] \<or> trim (path c) = [] then [PathEmpty] else []);
          warns = (if path c \<noteq> [] \<and> \<not> String_includes (path c) ''/''
                      \<and> \<not> String_includes (path c) backslash
                   then [PathNotComplete] else [])
      in \<lparr>isValid = (errs = []), errors = errs, warnings = warns\<rparr>)"

text \<open>\<^verbatim>\<open>editors.findIndex(editor => editor.id === editorId)\<close>; \<open>None\<close> is \<^verbatim>\<open>-1\<close>.\<close>

fun findIndex :: "('a \<Rightarrow> bool) \<Rightarrow> 'a list \<Rightarrow> nat option" where
  "findIndex P [] = None"
| "findIndex P (x # xs) =
     (if P x then Some 0 else map_option Suc (findIndex P xs))"

text \<open>
  \<^verbatim>\<open>addEditor\<close>. Its argument has the fields of an editor without \<^verbatim>\<open>id\<close>, \<^verbatim>\<open>createdAt\<close> and
  \<^verbatim>\<open>updatedAt\<close>; the model passes an \<open>EditorConfig\<close> and ignores these three. The new
  editor takes \<^verbatim>\<open>name\<close>, \<^verbatim>\<open>path\<close> and \<^verbatim>\<open>type\<close> from the argument and no \<^verbatim>\<open>jumpMode\<close>.
\<close>

definition addEditor ::
  "int \<Rightarrow> string \<Rightarrow> bool \<Rightarrow> EditorConfig list \<Rightarrow> EditorConfig
     \<Rightarrow> EditorConfig option \<times> EditorConfig list" where
  "addEditor now uuid stored registry editorConfig =
     (if \<not> isValid (validateEditorConfig editorConfig) then (None, registry)
      else if list_ex (\<lambda>e. path e = path editorConfig) registry then (None, registry)
      else
        (let editors = (if isDefault editorConfig
                        then map (\<lambda>e. e\<lparr>isDefault := False\<rparr>) registry else registry);
             shouldBeDefault = (if editors = [] then True else isDefault editorConfig);
             newEditor = \<lparr>id_ec = uuid, name = name editorConfig, path = path editorConfig,
                          isDefault = shouldBeDefault,
                          type = (case type editorConfig of
                                    Some t \<Rightarrow> Some t
                                  | None \<Rightarrow> Some (detectEditorType (path editorConfig))),
                          jumpMode = None, createdAt = now, updatedAt = now\<rparr>
         in if stored then (Some newEditor, editors @ [newEditor]) else (None, registry)))"

text \<open>
  The argument of \<^verbatim>\<open>updateEditor\<close>: every field but \<^verbatim>\<open>id\<close> and \<^verbatim>\<open>createdAt\<close>, each optional.
  \<open>None\<close> is a field that is not given.
\<close>

record EditorUpdates =
  newName :: "string option"
  newPath :: "string option"
  newIsDefault :: "bool option"
  newType :: "EditorType option"
  newJumpMode :: "JumpMode option"
  newUpdatedAt :: "int option"

definition applyUpdates :: "int \<Rightarrow> EditorConfig \<Rightarrow> EditorUpdates \<Rightarrow> EditorConfig" where
  "applyUpdates now originalEditor updates =
     \<lparr>id_ec = id_ec originalEditor,
      name = (case newName updates of Some n \<Rightarrow> n | None \<Rightarrow> name originalEditor),
      path = (case newPath updates of Some p \<Rightarrow> p | None \<Rightarrow> path originalEditor),
      isDefault = (case newIsDefault updates of Some d \<Rightarrow> d
                   | None \<Rightarrow> isDefault originalEditor),
      type = (case newType updates of Some t \<Rightarrow> Some t | None \<Rightarrow> type originalEditor),
      jumpMode = (case newJumpMode updates of Some m \<Rightarrow> Some m
                  | None \<Rightarrow> jumpMode originalEditor),
      createdAt = createdAt originalEditor,
      updatedAt = now\<rparr>"

definition updateEditor ::
  "int \<Rightarrow> bool \<Rightarrow> EditorConfig list \<Rightarrow> string \<Rightarrow> EditorUpdates
     \<Rightarrow> bool \<times> EditorConfig list" where
  "updateEditor now stored registry editorId updates =
     (case findIndex (\<lambda>e. id_ec e = editorId) registry of
        None \<Rightarrow> (False, registry)
      | Some editorIndex \<Rightarrow>
          (let originalEditor = registry ! editorIndex;
               updatedEditor = applyUpdates now originalEditor updates
           in if \<not> isValid (validateEditorConfig updatedEditor) then (False, registry)
              else
                (let editors =
                       (if isDefault updatedEditor \<and> \<not> isDefault originalEditor
                        then map (\<lambda>(i, e). if i \<noteq> editorIndex then e\<lparr>isDefault := False\<rparr>
                                           else e)
                                 (enumerate 0 registry)
                        else registry)
                 in if stored then (True, editors[editorIndex := updatedEditor])
                    else (False, registry))))"

definition deleteEditor ::
  "bool \<Rightarrow> EditorConfig list \<Rightarrow> string \<Rightarrow> bool \<times> EditorConfig list" where
  "deleteEditor stored registry editorId =
     (case findIndex (\<lambda>e. id_ec e = editorId) registry of
        None \<Rightarrow> (False, registry)
      | Some editorIndex \<Rightarrow>
          (let deletedEditor = registry ! editorIndex;
               updatedEditors = filter (\<lambda>e. id_ec e \<noteq> editorId) registry;
               updatedEditors' =
                 (case updatedEditors of
                    [] \<Rightarrow> []
                  | e # es \<Rightarrow> if isDefault deletedEditor
                              then e\<lparr>isDefault := True\<rparr> # es else e # es)
           in if stored then (True, updatedEditors') else (False, registry)))"

definition setDefaultEditor ::
  "int \<Rightarrow> bool \<Rightarrow> EditorConfig list \<Rightarrow> string \<Rightarrow> bool \<times> EditorConfig list" where
  "setDefaultEditor now stored registry editorId =
     (let editors = map (\<lambda>e. if id_ec e = editorId
                              then e\<lparr>isDefault := True, updatedAt := now\<rparr>
                              else e\<lparr>isDefault := False\<rparr>) registry
      in if \<not> list_ex (\<lambda>e. id_ec e = editorId) registry then (False, registry)
         else if stored then (True, editors) else (False, registry))"

definition getDefaultEditor :: "EditorConfig list \<Rightarrow> EditorConfig option" where
  "getDefaultEditor registry = find isDefault registry"

text \<open>
  The four operations as requests, and a run of requests from a registry. A request
  carries the values the operation takes from its surroundings.
\<close>

datatype EditorRequest =
    AddEditor int string bool EditorConfig
  | UpdateEditor int bool string EditorUpdates
  | DeleteEditor bool string
  | SetDefaultEditor int bool string

fun applyRequest :: "EditorConfig list \<Rightarrow> EditorRequest \<Rightarrow> EditorConfig list" where
  "applyRequest registry (AddEditor now uuid stored c) = snd (addEditor now uuid stored registry c)"
| "applyRequest registry (UpdateEditor now stored i u) = snd (updateEditor now stored registry i u)"
| "applyRequest registry (DeleteEditor stored i) = snd (deleteEditor stored registry i)"
| "applyRequest registry (SetDefaultEditor now stored i) =
     snd (setDefaultEditor now stored registry i)"

definition runRequests :: "EditorConfig list \<Rightarrow> EditorRequest list \<Rightarrow> EditorConfig list" where
  "runRequests registry reqs = foldl applyRequest registry reqs"

text \<open>The number of editors marked as default.\<close>

definition defaultCount :: "EditorConfig list \<Rightarrow> nat" where
  "defaultCount registry = length (filter isDefault registry)"

definition noUpdates :: EditorUpdates where
  "noUpdates = \<lparr>newName = None, newPath = None, newIsDefault = None, newType = None,
                newJumpMode = None, newUpdatedAt = None\<rparr>"

text \<open>
  The invariant of the registry: editor ids are pairwise different, and a registry that
  is not empty has exactly one default editor (an empty one has none).
\<close>

definition registryInvariant :: "EditorConfig list \<Rightarrow> bool" where
  "registryInvariant registry =
     (distinct (map id_ec registry)
      \<and> defaultCount registry = (if registry = [] then 0 else 1))"

text \<open>
  A request is admissible in a registry when the id it brings from \<^verbatim>\<open>uuidv4()\<close> is new,
  and when it is not an update that sets \<^verbatim>\<open>isDefault\<close> to \<^verbatim>\<open>false\<close> on the default editor.
\<close>

fun admissible :: "EditorConfig list \<Rightarrow> EditorRequest \<Rightarrow> bool" where
  "admissible registry (AddEditor now uuid stored c) = (uuid \<notin> set (map id_ec registry))"
| "admissible registry (UpdateEditor now stored i u) =
     (\<not> (newIsDefault u = Some False
         \<and> list_ex (\<lambda>e. id_ec e = i \<and> isDefault e) registry))"
| "admissible registry (DeleteEditor stored i) = True"
| "admissible registry (SetDefaultEditor now stored i) = True"

fun admissibleRun :: "EditorConfig list \<Rightarrow> EditorRequest list \<Rightarrow> bool" where
  "admissibleRun registry [] = True"
| "admissibleRun registry (r # rs) =
     (admissible registry r \<and> admissibleRun (applyRequest registry r) rs)"

section \<open>Command construction and execution: class CommandExecutor\<close>


text \<open>
  Every \<^verbatim>\<open>throw\<close> and every rejected promise of the executor is a value of \<open>ExecError\<close>.
  The constructors from \<open>EditorMissing\<close> to \<open>InvalidCommandFormat\<close> stand for the fixed,
  non-empty message texts of the source; \<open>TypeError\<close> is the engine's error for reading
  a property of \<^verbatim>\<open>undefined\<close> or for using a value that is no string as a command;
  \<open>BuilderError\<close> is an error thrown by a registered custom builder and \<open>OsError\<close> one
  reported by the operating system when a child process is started.
\<close>

datatype ExecError =
    TypeError
  | EditorMissing
  | EditorPathEmpty
  | FilePathEmpty
  | LineNumberTooSmall
  | EditorPathNotFound string
  | CommandEmpty
  | UnsupportedPlatform string
  | InvalidCommandFormat
  | BuilderError string
  | OsError string

record CommandExecutionResult =
  success :: bool
  error :: "ExecError option"
  command :: string
  executionTime :: int
  processId :: "int option"

text \<open>
  The executor and the \<^verbatim>\<open>@Cacheable\<close> decorator of \<^verbatim>\<open>verifyEditorPath\<close> both use the
  singleton cache manager. It holds two kinds of values: command strings, stored by
  \<^verbatim>\<open>buildCommand\<close>, and the promise returned by the asynchronous \<^verbatim>\<open>verifyEditorPath\<close>,
  which resolves to the boolean of \<^verbatim>\<open>fs.existsSync\<close>. \<^verbatim>\<open>cache.get<string>\<close> is an unchecked
  cast, so the model keeps both kinds in one type and follows JavaScript's truthiness.
\<close>

datatype Cached = CachedString string | CachedPromise bool

fun truthy :: "Cached \<Rightarrow> bool" where
  "truthy (CachedString s) = (s \<noteq> [])"
| "truthy (CachedPromise b) = True"

text \<open>\<^verbatim>\<open>await v\<close> followed by the test \<^verbatim>\<open>!pathExists\<close>.\<close>

fun awaitedTruthy :: "Cached \<Rightarrow> bool" where
  "awaitedTruthy (CachedString s) = (s \<noteq> [])"
| "awaitedTruthy (CachedPromise b) = b"

text \<open>
  What the executor does to the world outside: it starts child processes, through a
  shell (\<^verbatim>\<open>exec\<close>) or directly (\<^verbatim>\<open>spawn\<close>), and it calls the injected error handler.
  The operating system answers a start request with the \<^verbatim>\<open>spawn\<close> event and the process
  id, with the \<^verbatim>\<open>error\<close> event, by throwing from \<^verbatim>\<open>exec\<close>/\<^verbatim>\<open>spawn\<close> itself, or with neither
  event (on Windows: none before the 100 ms timer of \<^verbatim>\<open>executeCommand\<close>). The handler
  either returns (\<open>None\<close>) or throws (\<open>Some e\<close>).
\<close>

datatype LaunchRequest = ExecShell string | SpawnDirect string "string list"

datatype LaunchOutcome =
    SpawnEvent "int option"
  | ErrorEvent string
  | Throws string
  | NoEvent "int option"

datatype Effect = Launch LaunchRequest | HandlerCall ExecError

type_synonym ErrorHandler = "ExecError \<Rightarrow> ExecError option"

type_synonym CommandBuilder = "CommandExecutionParams \<Rightarrow> PlatformInfo \<Rightarrow> ExecError + string"

text \<open>
  \<^verbatim>\<open>executionStats.averageExecutionTime\<close> is the floating-point quotient of
  \<open>totalExecutionTime\<close> and \<open>totalExecutions\<close> and is not stored.
\<close>

record ExecutionStats =
  totalExecutions :: nat
  successfulExecutions :: nat
  failedExecutions :: nat
  totalExecutionTime :: int

record CommandExecutor =
  cacheManager :: "Cached CacheManager"
  platformInfo :: PlatformInfo
  executionStats :: ExecutionStats
  errorHandler :: "ErrorHandler option"
  runningProcesses :: "(string \<times> LaunchRequest) list"
  commandBuilders :: "(string \<times> CommandBuilder) list"

definition initializePlatformInfo :: "string \<Rightarrow> string \<Rightarrow> string \<Rightarrow> PlatformInfo" where
  "initializePlatformInfo p a v =
     \<lparr>platform = p, isWindows = (p = ''win32''), isMacOS = (p = ''darwin''),
      isLinux = (p = ''linux''), arch = a, version = v\<rparr>"

definition escapeWindowsPath :: "string \<Rightarrow> string" where
  "escapeWindowsPath p = replaceAllChar (CHR 0x5C) (backslash @ backslash) p"

definition escapeUnixPath :: "string \<Rightarrow> string" where
  "escapeUnixPath p =
     replaceAllChar (CHR 0x27) (squote @ dquote @ squote @ dquote @ squote) p"

text \<open>
  The four builders registered by \<^verbatim>\<open>initializeCommandBuilders\<close>. Each reads
  \<^verbatim>\<open>params.editor.path\<close>, which throws when the editor is undefined.
\<close>

definition win32Builder :: CommandBuilder where
  "win32Builder params pf =
     (case editor params of
        None \<Rightarrow> Inl TypeError
      | Some e \<Rightarrow>
          Inr (dquote @ escapeWindowsPath (path e) @ dquote @ '' --line ''
               @ showInt (lineNumber params) @ '' ''
               @ dquote @ escapeWindowsPath (filePath params) @ dquote))"

definition unixBuilder :: CommandBuilder where
  "unixBuilder params pf =
     (case editor params of
        None \<Rightarrow> Inl TypeError
      | Some e \<Rightarrow>
          Inr (''nohup '' @ squote @ escapeUnixPath (path e) @ squote @ '' --line ''
               @ showInt (lineNumber params) @ '' ''
               @ dquote @ escapeUnixPath (filePath params) @ dquote
               @ '' > /dev/null 2>&1 &''))"

definition darwinBuilder :: CommandBuilder where
  "darwinBuilder = unixBuilder"

definition linuxBuilder :: CommandBuilder where
  "linuxBuilder = unixBuilder"

definition defaultBuilder :: CommandBuilder where
  "defaultBuilder params pf =
     (case editor params of
        None \<Rightarrow> Inl TypeError
      | Some e \<Rightarrow>
          Inr (dquote @ path e @ dquote @ '' --line '' @ showInt (lineNumber params)
               @ '' '' @ dquote @ filePath params @ dquote))"

definition initializeCommandBuilders :: "(string \<times> CommandBuilder) list" where
  "initializeCommandBuilders =
     [(''win32'', win32Builder), (''darwin'', darwinBuilder),
      (''linux'', linuxBuilder), (''default'', defaultBuilder)]"

definition new_CommandExecutor ::
  "Cached CacheManager \<Rightarrow> string \<Rightarrow> string \<Rightarrow> string \<Rightarrow> CommandExecutor" where
  "new_CommandExecutor cm p a v =
     \<lparr>cacheManager = cm, platformInfo = initializePlatformInfo p a v,
      executionStats = \<lparr>totalExecutions = 0, successfulExecutions = 0,
                         failedExecutions = 0, totalExecutionTime = 0\<rparr>,
      errorHandler = None, runningProcesses = [],
      commandBuilders = initializeCommandBuilders\<rparr>"

definition setErrorHandler :: "CommandExecutor \<Rightarrow> ErrorHandler \<Rightarrow> CommandExecutor" where
  "setErrorHandler ex h = ex\<lparr>errorHandler := Some h\<rparr>"

definition addCommandBuilder ::
  "CommandExecutor \<Rightarrow> string \<Rightarrow> CommandBuilder \<Rightarrow> CommandExecutor" where
  "addCommandBuilder ex p b = ex\<lparr>commandBuilders := AList.update p b (commandBuilders ex)\<rparr>"

definition removeCommandBuilder :: "CommandExecutor \<Rightarrow> string \<Rightarrow> CommandExecutor" where
  "removeCommandBuilder ex p = ex\<lparr>commandBuilders := AList.delete p (commandBuilders ex)\<rparr>"

definition validateExecutionParams :: "CommandExecutionParams \<Rightarrow> ExecError option" where
  "validateExecutionParams params =
     (case editor params of
        None \<Rightarrow> Some EditorMissing
      | Some e \<Rightarrow>
          if path e = [] \<or> trim (path e) = [] then Some EditorPathEmpty
          else if filePath params = [] \<or> trim (filePath params) = [] then Some FilePathEmpty
          else if lineNumber params < 1 then Some LineNumberTooSmall
          else None)"

definition generateCommandCacheKey ::
  "CommandExecutor \<Rightarrow> CommandExecutionParams \<Rightarrow> ExecError + string" where
  "generateCommandCacheKey ex params =
     (case editor params of
        None \<Rightarrow> Inl TypeError
      | Some e \<Rightarrow> Inr (''command:'' @ id_ec e @ '':'' @ platform (platformInfo ex)))"

text \<open>
  \<^verbatim>\<open>verifyEditorPath\<close> under its decorator \<^verbatim>\<open>@Cacheable(5000, key)\<close>: a cached value that is
  not \<^verbatim>\<open>undefined\<close> is returned without looking at the disk; otherwise
  \<^verbatim>\<open>fs.existsSync\<close> is asked (the argument \<open>existsSync\<close>) and the promise of its answer is
  cached for 5000 ms.
\<close>

definition verifyEditorPath ::
  "(string \<Rightarrow> bool) \<Rightarrow> int \<Rightarrow> CommandExecutor \<Rightarrow> string \<Rightarrow> bool \<times> CommandExecutor" where
  "verifyEditorPath existsSync now ex editorPath =
     (let cacheKey = ''editor_path_exists:'' @ editorPath;
          (cachedResult, cm1) = CacheManager_get now (cacheManager ex) cacheKey
      in case cachedResult of
           Some v \<Rightarrow> (awaitedTruthy v, ex\<lparr>cacheManager := cm1\<rparr>)
         | None \<Rightarrow>
             (let result = existsSync editorPath;
                  cm2 = snd (CacheManager_set now cm1 cacheKey (CachedPromise result) (Some 5000))
              in (result, ex\<lparr>cacheManager := cm2\<rparr>)))"

text \<open>
  The builder used by \<^verbatim>\<open>buildCommand\<close>:
  \<^verbatim>\<open>commandBuilders.get(platform) || commandBuilders.get('default')\<close>.
\<close>

definition selectBuilder :: "CommandExecutor \<Rightarrow> CommandBuilder option" where
  "selectBuilder ex =
     (case map_of (commandBuilders ex) (platform (platformInfo ex)) of
        Some b \<Rightarrow> Some b
      | None \<Rightarrow> map_of (commandBuilders ex) ''default'')"

text \<open>
  \<^verbatim>\<open>buildCommand\<close>. \<^verbatim>\<open>if (cachedCommand)\<close> is a truthiness test. \<open>buildFresh\<close> is the part
  of the method after that test: it selects the builder, builds the command and caches
  it for 1000 ms. The \<^verbatim>\<open>catch\<close> block logs and rethrows, so an error leaves as it arose.
\<close>

definition buildFresh ::
  "int \<Rightarrow> CommandExecutor \<Rightarrow> CommandExecutionParams \<Rightarrow> string
     \<Rightarrow> (ExecError + Cached) \<times> CommandExecutor" where
  "buildFresh now ex params cacheKey =
     (case selectBuilder ex of
        None \<Rightarrow> (Inl (UnsupportedPlatform (platform (platformInfo ex))), ex)
      | Some builder \<Rightarrow>
          (case builder params (platformInfo ex) of
             Inl e \<Rightarrow> (Inl e, ex)
           | Inr built \<Rightarrow>
               (Inr (CachedString built),
                ex\<lparr>cacheManager :=
                     snd (CacheManager_set now (cacheManager ex) cacheKey
                            (CachedString built) (Some 1000))\<rparr>)))"

definition buildCommand ::
  "int \<Rightarrow> CommandExecutor \<Rightarrow> CommandExecutionParams \<Rightarrow> (ExecError + Cached) \<times> CommandExecutor" where
  "buildCommand now ex params =
     (case generateCommandCacheKey ex params of
        Inl e \<Rightarrow> (Inl e, ex)
      | Inr cacheKey \<Rightarrow>
          (let (cachedCommand, cm1) = CacheManager_get now (cacheManager ex) cacheKey;
               ex1 = ex\<lparr>cacheManager := cm1\<rparr>
           in case cachedCommand of
                None \<Rightarrow> buildFresh now ex1 params cacheKey
              | Some v \<Rightarrow> if truthy v then (Inr v, ex1) else buildFresh now ex1 params cacheKey))"

definition containsShellOperators :: "string \<Rightarrow> bool" where
  "containsShellOperators c =
     list_ex (String_includes c)
       [''nohup'', ''>'', ''<'', ''&'', ''|'', ''&&'', ''||'', '';'', ''$('', ''`'']"

text \<open>
  \<^verbatim>\<open>parseCommandForUnix\<close> splits the command with the global regular expression
  \<^verbatim>\<open>(?:[^\s"]+|"[^"]*")+\<close>: a part is a longest run of pieces, each piece a character that
  is neither white space nor a double quote, or a double-quoted segment. A double quote
  with no closing partner matches nothing and is skipped. \<open>parts inq cur s\<close> scans \<open>s\<close>
  with the part read so far in \<open>cur\<close>, inside a quoted segment when \<open>inq\<close>.
\<close>

definition flushPart :: "string \<Rightarrow> string list \<Rightarrow> string list" where
  "flushPart cur ps = (if cur = [] then ps else cur # ps)"

fun parts :: "bool \<Rightarrow> string \<Rightarrow> string \<Rightarrow> string list" where
  "parts inq cur [] = flushPart cur []"
| "parts True cur (c # cs) =
     (if c = CHR 0x22 then parts False (cur @ [c]) cs else parts True (cur @ [c]) cs)"
| "parts False cur (c # cs) =
     (if c = CHR 0x22 then
        (if CHR 0x22 \<in> set cs then parts True (cur @ [c]) cs
         else flushPart cur (parts False [] cs))
      else if isWhiteSpace c then flushPart cur (parts False [] cs)
      else parts False (cur @ [c]) cs)"

definition stripQuotes :: "string \<Rightarrow> string" where
  "stripQuotes s = filter (\<lambda>c. c \<noteq> CHR 0x22) s"

definition parseCommandForUnix :: "string \<Rightarrow> ExecError + (string \<times> string list)" where
  "parseCommandForUnix c =
     (case parts False [] c of
        [] \<Rightarrow> Inl InvalidCommandFormat
      | p # ps \<Rightarrow> Inr (stripQuotes p, map stripQuotes ps))"

text \<open>
  \<^verbatim>\<open>executeCommand\<close>. The promise it returns is fulfilled with the process id
  (\<open>Settled (Inr pid)\<close>), rejected (\<open>Settled (Inl e)\<close>), or never settled. The body of the
  promise runs inside \<^verbatim>\<open>try/catch\<close>, which turns every throw into a rejection. A started
  child is entered in \<^verbatim>\<open>runningProcesses\<close> under \<^verbatim>\<open>editor.id + "_" + Date.now()\<close> and taken
  out again by its \<^verbatim>\<open>error\<close> event. The later \<^verbatim>\<open>exit\<close> event of a running child is
  outside a single call.
\<close>

datatype 'a Settling = Settled 'a | NeverSettles

definition launchRequestFor :: "CommandExecutor \<Rightarrow> Cached \<Rightarrow> ExecError + LaunchRequest" where
  "launchRequestFor ex cmd =
     (case cmd of
        CachedPromise b \<Rightarrow> Inl TypeError
      | CachedString c \<Rightarrow>
          if isWindows (platformInfo ex) then Inr (ExecShell c)
          else if containsShellOperators c then Inr (ExecShell c)
          else (case parseCommandForUnix c of
                  Inl e \<Rightarrow> Inl e
                | Inr (program, arguments) \<Rightarrow> Inr (SpawnDirect program arguments)))"

definition executeCommand ::
  "(LaunchRequest \<Rightarrow> LaunchOutcome) \<Rightarrow> int \<Rightarrow> CommandExecutor \<Rightarrow> Cached
     \<Rightarrow> CommandExecutionParams
     \<Rightarrow> (ExecError + int option) Settling \<times> CommandExecutor \<times> Effect list" where
  "executeCommand os now ex cmd params =
     (case launchRequestFor ex cmd of
        Inl e \<Rightarrow> (Settled (Inl e), ex, [])
      | Inr req \<Rightarrow>
          (case os req of
             Throws m \<Rightarrow> (Settled (Inl (OsError m)), ex, [Launch req])
           | outcome \<Rightarrow>
               (case editor params of
                  None \<Rightarrow> (Settled (Inl TypeError), ex, [Launch req])
                | Some e \<Rightarrow>
                    (let processKey = id_ec e @ ''_'' @ showInt now;
                         ex1 = ex\<lparr>runningProcesses :=
                                    AList.update processKey req (runningProcesses ex)\<rparr>
                     in case outcome of
                          SpawnEvent pid \<Rightarrow> (Settled (Inr pid), ex1, [Launch req])
                        | ErrorEvent m \<Rightarrow>
                            (Settled (Inl (OsError m)),
                             ex1\<lparr>runningProcesses :=
                                   AList.delete processKey (runningProcesses ex1)\<rparr>,
                             [Launch req])
                        | NoEvent pid \<Rightarrow>
                            (if isWindows (platformInfo ex)
                             then (Settled (Inr pid), ex1, [Launch req])
                             else (NeverSettles, ex1, [Launch req]))
                        | Throws m \<Rightarrow> (Settled (Inl (OsError m)), ex, [Launch req])))))"

definition updateExecutionStats :: "bool \<Rightarrow> int \<Rightarrow> CommandExecutor \<Rightarrow> CommandExecutor" where
  "updateExecutionStats ok t ex =
     (let st = executionStats ex;
          st1 = (if ok then st\<lparr>successfulExecutions := Suc (successfulExecutions st)\<rparr>
                 else st\<lparr>failedExecutions := Suc (failedExecutions st)\<rparr>)
      in ex\<lparr>executionStats := st1\<lparr>totalExecutionTime := totalExecutionTime st1 + t\<rparr>\<rparr>)"

text \<open>
  The \<^verbatim>\<open>try\<close> block of \<^verbatim>\<open>executeJumpCommand\<close>, up to the point where it either has a
  command and a process id or has thrown. Its first statement logs
  \<^verbatim>\<open>params.editor.name\<close>, which throws on an undefined editor before validation runs.
\<close>

definition jumpBody ::
  "(string \<Rightarrow> bool) \<Rightarrow> (LaunchRequest \<Rightarrow> LaunchOutcome) \<Rightarrow> int \<Rightarrow> CommandExecutor
     \<Rightarrow> CommandExecutionParams
     \<Rightarrow> (ExecError + string \<times> int option) Settling \<times> CommandExecutor \<times> Effect list" where
  "jumpBody existsSync os now ex params =
     (case editor params of
        None \<Rightarrow> (Settled (Inl TypeError), ex, [])
      | Some e \<Rightarrow>
          (case validateExecutionParams params of
             Some err \<Rightarrow> (Settled (Inl err), ex, [])
           | None \<Rightarrow>
               (let (pathExists, ex1) = verifyEditorPath existsSync now ex (path e)
                in if \<not> pathExists then (Settled (Inl (EditorPathNotFound (path e))), ex1, [])
                   else (case buildCommand now ex1 params of
                           (Inl err, ex2) \<Rightarrow> (Settled (Inl err), ex2, [])
                         | (Inr cmd, ex2) \<Rightarrow>
                             if \<not> truthy cmd then (Settled (Inl CommandEmpty), ex2, [])
                             else (case executeCommand os now ex2 cmd params of
                                     (NeverSettles, ex3, effs) \<Rightarrow> (NeverSettles, ex3, effs)
                                   | (Settled (Inl err), ex3, effs) \<Rightarrow>
                                       (Settled (Inl err), ex3, effs)
                                   | (Settled (Inr pid), ex3, effs) \<Rightarrow>
                                       (Settled (Inr (case cmd of CachedString c \<Rightarrow> c
                                                      | CachedPromise b \<Rightarrow> [], pid)),
                                        ex3, effs))))))"

text \<open>
  \<^verbatim>\<open>executeJumpCommand\<close>, called at time \<open>now\<close> and completing at time \<open>fin\<close>. The promise
  of the asynchronous method is fulfilled with a result, rejected with an error that
  escaped, or never settled. An error thrown by the injected handler is thrown inside
  the \<^verbatim>\<open>catch\<close> block and escapes.
\<close>

datatype JumpOutcome = Fulfilled CommandExecutionResult | Rejected ExecError | Unsettled

definition executeJumpCommand ::
  "(string \<Rightarrow> bool) \<Rightarrow> (LaunchRequest \<Rightarrow> LaunchOutcome) \<Rightarrow> int \<Rightarrow> int \<Rightarrow> CommandExecutor
     \<Rightarrow> CommandExecutionParams \<Rightarrow> JumpOutcome \<times> CommandExecutor \<times> Effect list" where
  "executeJumpCommand existsSync os now fin ex0 params =
     (let ex = ex0\<lparr>executionStats := (executionStats ex0)
                  \<lparr>totalExecutions := Suc (totalExecutions (executionStats ex0))\<rparr>\<rparr>
      in case jumpBody existsSync os now ex params of
           (NeverSettles, ex1, effs) \<Rightarrow> (Unsettled, ex1, effs)
         | (Settled (Inr (c, pid)), ex1, effs) \<Rightarrow>
             (Fulfilled \<lparr>success = True, error = None, command = c,
                         executionTime = fin - now,
                         processId = (if pid = Some 0 then None else pid)\<rparr>,
              updateExecutionStats True (fin - now) ex1, effs)
         | (Settled (Inl err), ex1, effs) \<Rightarrow>
             (let ex2 = updateExecutionStats False (fin - now) ex1;
                  failed = \<lparr>success = False, error = Some err, command = [],
                            executionTime = fin - now, processId = None\<rparr>
              in case errorHandler ex2 of
                   None \<Rightarrow> (Fulfilled failed, ex2, effs)
                 | Some h \<Rightarrow>
                     (case h err of
                        None \<Rightarrow> (Fulfilled failed, ex2, effs @ [HandlerCall err])
                      | Some thrown \<Rightarrow> (Rejected thrown, ex2, effs @ [HandlerCall err]))))"

text \<open>
  Concrete surroundings for the examples below: a disk on which every path exists, a
  disk on which none does, an operating system that starts every process with id 4711,
  an error handler that returns and one that throws what it is given, an editor and a
  jump request.
\<close>

definition diskPresent :: "string \<Rightarrow> bool" where
  "diskPresent p = True"

definition diskAbsent :: "string \<Rightarrow> bool" where
  "diskAbsent p = False"

definition osSpawns :: "LaunchRequest \<Rightarrow> LaunchOutcome" where
  "osSpawns req = SpawnEvent (Some 4711)"

definition handlerReturns :: ErrorHandler where
  "handlerReturns e = None"

definition handlerThrows :: ErrorHandler where
  "handlerThrows e = Some e"

definition ideaEditor :: EditorConfig where
  "ideaEditor =
     \<lparr>id_ec = ''e1'', name = ''IDEA'', path = ''/opt/idea/bin/idea'', isDefault = True,
      type = Some IDEA, jumpMode = None, createdAt = 0, updatedAt = 0\<rparr>"

definition jumpRequest :: "string \<Rightarrow> int \<Rightarrow> CommandExecutionParams" where
  "jumpRequest f n =
     \<lparr>editor = Some ideaEditor, filePath = f, lineNumber = n, columnNumber = None,
      projectRoot = ''/proj''\<rparr>"

definition darwinExecutor :: CommandExecutor where
  "darwinExecutor =
     new_CommandExecutor (new_CacheManager 0 DEFAULT_CONFIG) ''darwin'' ''arm64'' ''23.0.0''"

section \<open>Debounce: DebounceUtils.debounce\<close>

text \<open>
  \<^verbatim>\<open>debounce(func, wait, options)\<close> returns a wrapper that closes over the variables
  \<^verbatim>\<open>timerId\<close>, \<^verbatim>\<open>lastCallTime\<close>, \<^verbatim>\<open>lastInvokeTime\<close> and \<^verbatim>\<open>lastArgs\<close>. The configuration is a
  record, the closure variables are a second record, and every inner function takes the
  configuration, the value of \<^verbatim>\<open>Date.now()\<close> and the state, and returns the new state.

  Two fields stand for the surroundings of the wrapper. \<open>timers\<close> are the timeouts that
  the wrapper has handed to the event loop and that have neither fired nor been cleared,
  each with the time at which it is due; \<open>nextTimer\<close> numbers them. \<open>invocations\<close> is the
  record of the calls of \<^verbatim>\<open>func\<close>: the time given to \<^verbatim>\<open>invokeFunc\<close> and the arguments
  (\<open>None\<close> when \<^verbatim>\<open>lastArgs\<close> was undefined). The value returned by \<^verbatim>\<open>func\<close>, kept in
  \<^verbatim>\<open>result\<close>, and the variable \<^verbatim>\<open>maxTimerId\<close>, which is never assigned a timer, are left out.
\<close>

record DebounceConfig =
  wait :: int
  leading :: bool
  trailing :: bool
  maxWait :: "int option"

record 'a DebounceState =
  timerId :: "nat option"
  lastCallTime :: "int option"
  lastInvokeTime :: int
  lastArgs :: "'a option"
  timers :: "(nat \<times> int) list"
  nextTimer :: nat
  invocations :: "(int \<times> 'a option) list"

definition newDebounce :: "'a DebounceState" where
  "newDebounce =
     \<lparr>timerId = None, lastCallTime = None, lastInvokeTime = 0, lastArgs = None,
      timers = [], nextTimer = 0, invocations = []\<rparr>"

text \<open>The default options: \<^verbatim>\<open>leading = false\<close>, \<^verbatim>\<open>trailing = true\<close>, no \<^verbatim>\<open>maxWait\<close>.\<close>

definition debounceConfig :: "int \<Rightarrow> DebounceConfig" where
  "debounceConfig w = \<lparr>wait = w, leading = False, trailing = True, maxWait = None\<rparr>"

text \<open>
  \<^verbatim>\<open>setTimeout\<close> of Node.js sets a delay below 1 or above \<open>2\<^sup>3\<^sup>1 - 1\<close> to 1.
  \<open>startTimer\<close> puts \<^verbatim>\<open>timerId = startTimer(timerExpired, delay)\<close> into one step.
\<close>

definition nodeDelay :: "int \<Rightarrow> int" where
  "nodeDelay d = (if d < 1 \<or> 2147483647 < d then 1 else d)"

definition startTimer :: "int \<Rightarrow> int \<Rightarrow> 'a DebounceState \<Rightarrow> 'a DebounceState" where
  "startTimer time delay s =
     s\<lparr>timerId := Some (nextTimer s),
       timers := timers s @ [(nextTimer s, time + nodeDelay delay)],
       nextTimer := Suc (nextTimer s)\<rparr>"

definition invokeFunc :: "int \<Rightarrow> 'a DebounceState \<Rightarrow> 'a DebounceState" where
  "invokeFunc time s =
     s\<lparr>lastArgs := None, lastInvokeTime := time,
       invocations := invocations s @ [(time, lastArgs s)]\<rparr>"

definition leadingEdge :: "DebounceConfig \<Rightarrow> int \<Rightarrow> 'a DebounceState \<Rightarrow> 'a DebounceState" where
  "leadingEdge cfg time s =
     (let s1 = startTimer time (wait cfg) (s\<lparr>lastInvokeTime := time\<rparr>)
      in if leading cfg then invokeFunc time s1 else s1)"

text \<open>
  \<^verbatim>\<open>remainingWait\<close> and \<^verbatim>\<open>shouldInvoke\<close> read \<^verbatim>\<open>lastCallTime!\<close>. \<^verbatim>\<open>shouldInvoke\<close> tests
  \<^verbatim>\<open>lastCallTime === undefined\<close> first; \<^verbatim>\<open>remainingWait\<close> is only called after
  \<^verbatim>\<open>shouldInvoke\<close> was false, so with a call time, which it takes as an argument here.
\<close>

definition remainingWait :: "DebounceConfig \<Rightarrow> int \<Rightarrow> int \<Rightarrow> 'a DebounceState \<Rightarrow> int" where
  "remainingWait cfg time lastCall s =
     (let timeSinceLastCall = time - lastCall;
          timeSinceLastInvoke = time - lastInvokeTime s;
          timeWaiting = wait cfg - timeSinceLastCall
      in case maxWait cfg of
           Some m \<Rightarrow> min timeWaiting (m - timeSinceLastInvoke)
         | None \<Rightarrow> timeWaiting)"

definition shouldInvoke :: "DebounceConfig \<Rightarrow> int \<Rightarrow> 'a DebounceState \<Rightarrow> bool" where
  "shouldInvoke cfg time s =
     (case lastCallTime s of
        None \<Rightarrow> True
      | Some lastCall \<Rightarrow>
          (let timeSinceLastCall = time - lastCall;
               timeSinceLastInvoke = time - lastInvokeTime s
           in timeSinceLastCall \<ge> wait cfg
              \<or> timeSinceLastCall < 0
              \<or> (case maxWait cfg of
                    Some m \<Rightarrow> timeSinceLastInvoke \<ge> m
                  | None \<Rightarrow> False)))"

definition trailingEdge :: "DebounceConfig \<Rightarrow> int \<Rightarrow> 'a DebounceState \<Rightarrow> 'a DebounceState" where
  "trailingEdge cfg time s =
     (let s1 = s\<lparr>timerId := None\<rparr>
      in if trailing cfg \<and> lastArgs s1 \<noteq> None then invokeFunc time s1
         else s1\<lparr>lastArgs := None\<rparr>)"

definition timerExpired :: "DebounceConfig \<Rightarrow> int \<Rightarrow> 'a DebounceState \<Rightarrow> 'a DebounceState" where
  "timerExpired cfg time s =
     (if shouldInvoke cfg time s then trailingEdge cfg time s
      else (case lastCallTime s of
              Some lastCall \<Rightarrow> startTimer time (remainingWait cfg time lastCall s) s
            | None \<Rightarrow> s))"

text \<open>
  The wrapper itself. When \<^verbatim>\<open>isInvoking\<close> holds with a timer pending and no \<^verbatim>\<open>maxWait\<close>, the
  code falls through to the last \<^verbatim>\<open>if\<close>, which does nothing. With \<^verbatim>\<open>maxWait\<close> it starts a
  new timer without clearing the pending one and invokes.
\<close>

definition debounced :: "DebounceConfig \<Rightarrow> int \<Rightarrow> 'a \<Rightarrow> 'a DebounceState \<Rightarrow> 'a DebounceState" where
  "debounced cfg time args s =
     (let isInvoking = shouldInvoke cfg time s;
          s1 = s\<lparr>lastArgs := Some args, lastCallTime := Some time\<rparr>
      in if isInvoking \<and> timerId s1 = None then leadingEdge cfg time s1
         else if isInvoking \<and> maxWait cfg \<noteq> None
              then invokeFunc time (startTimer time (wait cfg) s1)
         else if timerId s1 = None then startTimer time (wait cfg) s1
         else s1)"

definition cancel :: "'a DebounceState \<Rightarrow> 'a DebounceState" where
  "cancel s =
     s\<lparr>timers := (case timerId s of
                     Some i \<Rightarrow> AList.delete i (timers s)
                   | None \<Rightarrow> timers s),
       lastInvokeTime := 0, lastArgs := None, lastCallTime := None, timerId := None\<rparr>"

definition flush :: "DebounceConfig \<Rightarrow> int \<Rightarrow> 'a DebounceState \<Rightarrow> 'a DebounceState" where
  "flush cfg time s = (if timerId s = None then s else trailingEdge cfg time s)"

definition pending :: "'a DebounceState \<Rightarrow> bool" where
  "pending s = (timerId s \<noteq> None)"

text \<open>
  The event loop. The wrapper is called at a time with arguments, or one of its pending
  timeouts fires: the loop takes it out of \<open>timers\<close> and runs \<^verbatim>\<open>timerExpired\<close>. A timeout
  never fires before it is due; \<open>step\<close> is \<open>None\<close> for a timeout that is not pending or
  not yet due.
\<close>

datatype 'a Event = Call int 'a | Fire nat int

fun eventTime :: "'a Event \<Rightarrow> int" where
  "eventTime (Call t a) = t"
| "eventTime (Fire i t) = t"

fun step :: "DebounceConfig \<Rightarrow> 'a DebounceState \<Rightarrow> 'a Event \<Rightarrow> 'a DebounceState option" where
  "step cfg s (Call t a) = Some (debounced cfg t a s)"
| "step cfg s (Fire i t) =
     (case map_of (timers s) i of
        None \<Rightarrow> None
      | Some due \<Rightarrow>
          if t < due then None
          else Some (timerExpired cfg t (s\<lparr>timers := AList.delete i (timers s)\<rparr>)))"

fun run :: "DebounceConfig \<Rightarrow> 'a DebounceState \<Rightarrow> 'a Event list \<Rightarrow> 'a DebounceState option" where
  "run cfg s [] = Some s"
| "run cfg s (e # es) = (case step cfg s e of None \<Rightarrow> None | Some s' \<Rightarrow> run cfg s' es)"

text \<open>
  Calling pressure. \<open>gapOk\<close>: a call comes less than \<^verbatim>\<open>wait\<close> after the call before it.
  \<open>punctual\<close>: no pending timeout is overdue when the event happens, so a timeout fires
  exactly when it is due. \<open>pressed cfg ideal now s evs\<close>: starting in state \<open>s\<close> at time
  \<open>now\<close>, the events \<open>evs\<close> happen in the order of their times, every event is possible,
  every call is under pressure and, when \<open>ideal\<close> is set, every event is punctual.
\<close>

definition gapOk :: "DebounceConfig \<Rightarrow> 'a DebounceState \<Rightarrow> 'a Event \<Rightarrow> bool" where
  "gapOk cfg s e =
     (case e of
        Call t a \<Rightarrow> (case lastCallTime s of None \<Rightarrow> True | Some lastCall \<Rightarrow> t - lastCall < wait cfg)
      | Fire i t \<Rightarrow> True)"

definition punctual :: "'a DebounceState \<Rightarrow> 'a Event \<Rightarrow> bool" where
  "punctual s e = list_all (\<lambda>(i, due). eventTime e \<le> due) (timers s)"

fun pressed ::
  "DebounceConfig \<Rightarrow> bool \<Rightarrow> int \<Rightarrow> 'a DebounceState \<Rightarrow> 'a Event list \<Rightarrow> bool" where
  "pressed cfg ideal now s [] = True"
| "pressed cfg ideal now s (e # es) =
     (now \<le> eventTime e \<and> gapOk cfg s e \<and> (ideal \<longrightarrow> punctual s e)
      \<and> (case step cfg s e of
            None \<Rightarrow> False
          | Some s' \<Rightarrow> pressed cfg ideal (eventTime e) s' es))"

text \<open>The calls among the events, and the last call at or before a point of a run.\<close>

fun calls :: "'a Event list \<Rightarrow> (int \<times> 'a) list" where
  "calls [] = []"
| "calls (Call t a # es) = (t, a) # calls es"
| "calls (Fire i t # es) = calls es"

text \<open>
  The two situations of a trailing-only wrapper (no leading edge, no \<^verbatim>\<open>maxWait\<close>) during
  and after a burst whose last call came at \<open>tn\<close> with arguments \<open>an\<close>, when \<^verbatim>\<open>func\<close> had
  been called as recorded in \<open>before\<close> when the burst began: one timeout is pending and
  \<^verbatim>\<open>func\<close> has not been called again, or nothing is pending and \<^verbatim>\<open>func\<close> has been called
  once more, with \<open>an\<close>, at least \<^verbatim>\<open>wait\<close> after \<open>tn\<close>.
\<close>

definition burstState ::
  "int \<Rightarrow> int \<Rightarrow> int \<Rightarrow> 'a \<Rightarrow> (int \<times> 'a option) list \<Rightarrow> 'a DebounceState \<Rightarrow> bool" where
  "burstState w now tn an before s =
     (lastCallTime s = Some tn \<and> tn \<le> now
      \<and> ((\<exists>i d. timerId s = Some i \<and> timers s = [(i, d)] \<and> lastArgs s = Some an
                 \<and> invocations s = before \<and> d \<le> tn + max 1 w)
         \<or> (\<exists>T. timerId s = None \<and> timers s = [] \<and> lastArgs s = None
                 \<and> invocations s = before @ [(T, Some an)] \<and> tn + w \<le> T \<and> T \<le> now)))"

text \<open>
  \<open>spaced m prev ts\<close>: the first time in \<open>ts\<close> is at most \<open>m\<close> after \<open>prev\<close>, and each
  following time at most \<open>m\<close> after the one before it.
\<close>

fun spaced :: "int \<Rightarrow> int \<Rightarrow> int list \<Rightarrow> bool" where
  "spaced m prev [] = True"
| "spaced m prev (t # ts) = (t - prev \<le> m \<and> spaced m t ts)"

text \<open>
  What holds of a wrapper with \<^verbatim>\<open>maxWait = m\<close> under pressure since its first call at \<open>t1\<close>,
  when the last event happened at \<open>now\<close>: \<^verbatim>\<open>lastInvokeTime\<close> is the time of the last call
  of \<^verbatim>\<open>func\<close> (\<open>t1\<close> before the first one), the calls of \<^verbatim>\<open>func\<close> are spaced by at most \<open>m\<close>,
  the last call of the wrapper came less than \<open>m\<close> after \<^verbatim>\<open>lastInvokeTime\<close>, every pending
  timeout is due by \<^verbatim>\<open>lastInvokeTime + m\<close>, \<^verbatim>\<open>timerId\<close> names a pending timeout, and
  arguments wait only while \<^verbatim>\<open>timerId\<close> is set.
\<close>

definition pressureState :: "int \<Rightarrow> int \<Rightarrow> int \<Rightarrow> 'a DebounceState \<Rightarrow> bool" where
  "pressureState m t1 now s =
     (\<exists>tl. lastCallTime s = Some tl \<and> tl \<le> now
        \<and> lastInvokeTime s \<le> now
        \<and> tl - lastInvokeTime s < m
        \<and> (\<forall>(i, d) \<in> set (timers s). d \<le> lastInvokeTime s + m)
        \<and> (\<forall>i. timerId s = Some i \<longrightarrow> i \<in> fst ` set (timers s))
        \<and> (timerId s = None \<longrightarrow> lastArgs s = None)
        \<and> (lastArgs s = None \<longrightarrow> tl \<le> lastInvokeTime s)
        \<and> spaced m t1 (map fst (invocations s))
        \<and> lastInvokeTime s = last (t1 # map fst (invocations s)))"

section \<open>Properties of the cache store\<close>

lemma map_of_delete_None: "map_of (AList.delete k xs) k = None"
  by (simp add: delete_conv')

lemma pair_notin_delete: "(k, v) \<notin> set (AList.delete k xs)"
  by (simp add: AList.delete_eq)

lemma key_notin_delete: "k \<notin> fst ` set (AList.delete k xs)"
  by (auto simp: pair_notin_delete)

lemma get_entry:
  assumes "map_of (cache cm) k = Some e"
  shows "CacheManager_get now cm k =
     (if now - timestamp e \<le> ttl e
      then (Some (data e), countHit now ((countRequest cm)\<lparr>accessTimes := AList.update k now (accessTimes cm)\<rparr>))
      else (None, countMiss now (snd (CacheManager_delete (countRequest cm) k))))"
  using assms by (auto simp: CacheManager_get_def countRequest_def isExpired_def Let_def)

lemma cache_after_set:
  "map_of (cache (snd (CacheManager_set t0 cm k d ttl_opt))) k =
     Some \<lparr>data = d, timestamp = t0, ttl = effectiveTtl (config cm) ttl_opt, key = k\<rparr>"
  by (simp add: CacheManager_set_def Let_def update_conv')

text \<open>
  Claim C1, as the code has it. After \<^verbatim>\<open>set(key, data, ttl)\<close> at time \<open>t0\<close>, with \<open>life\<close>
  the stored time-to-live (\<^verbatim>\<open>ttl\<close>, or the configured default when \<^verbatim>\<open>ttl\<close> is omitted
  or \<open>0\<close>), a \<^verbatim>\<open>get(key)\<close> at time \<open>t\<close> returns the stored value iff \<open>t - t0 \<le> life\<close>,
  that is up to and including the instant \<open>t0 + life\<close>; strictly after that instant it
  returns absent, and that same call removes the key from \<^verbatim>\<open>cache\<close> and \<^verbatim>\<open>accessTimes\<close>.
\<close>

theorem get_after_set_ttl:
  assumes "CacheManager_set t0 cm k d ttl_opt = (ok, cm1)"
      and "CacheManager_get t cm1 k = (r, cm2)"
      and "life = effectiveTtl (config cm) ttl_opt"
  shows "(r = Some d \<longleftrightarrow> t - t0 \<le> life)
       \<and> (r = None \<longleftrightarrow> life < t - t0)
       \<and> (life < t - t0 \<longrightarrow>
            k \<notin> fst ` set (cache cm2) \<and> k \<notin> fst ` set (accessTimes cm2))"
proof -
  let ?e = "\<lparr>data = d, timestamp = t0, ttl = life, key = k\<rparr>"
  have "cm1 = snd (CacheManager_set t0 cm k d ttl_opt)"
    using assms(1) by simp
  then have e: "map_of (cache cm1) k = Some ?e"
    using assms(3) by (simp add: cache_after_set)
  show ?thesis
    using assms(2)
    by (auto simp add: get_entry[OF e] countMiss_def updateCacheHitRate_def
        CacheManager_delete_def countRequest_def pair_notin_delete split: if_splits)
qed

theorem get_after_set_ttl_witness:
  "fst (CacheManager_get 50 (snd (CacheManager_set 0 (new_CacheManager 0 DEFAULT_CONFIG) ''k'' (42::int) (Some 100))) ''k'') = Some 42
 \<and> fst (CacheManager_get 150 (snd (CacheManager_set 0 (new_CacheManager 0 DEFAULT_CONFIG) ''k'' (42::int) (Some 100))) ''k'') = None
 \<and> ''k'' \<notin> fst ` set (cache (snd (CacheManager_get 150 (snd (CacheManager_set 0 (new_CacheManager 0 DEFAULT_CONFIG) ''k'' (42::int) (Some 100))) ''k'')))"
  using get_after_set_ttl[OF surjective_pairing surjective_pairing refl, of 50 0 "new_CacheManager 0 DEFAULT_CONFIG" "''k''" "42::int" "Some 100"]
        get_after_set_ttl[OF surjective_pairing surjective_pairing refl, of 150 0 "new_CacheManager 0 DEFAULT_CONFIG" "''k''" "42::int" "Some 100"]
  by (simp add: effectiveTtl_def new_CacheManager_def DEFAULT_CONFIG_def)

text \<open>
  Claim C1 as stated says that \<^verbatim>\<open>get\<close> returns absent at the instant \<open>timestamp + ttl\<close>
  itself. With \<^verbatim>\<open>set("k", 42, 100)\<close> at time \<open>0\<close>, the call \<^verbatim>\<open>get("k")\<close> at time \<open>100\<close> is not
  strictly before \<open>0 + 100\<close> and still returns \<open>42\<close>: \<^verbatim>\<open>isExpired\<close> compares with \<open>>\<close>.
\<close>

theorem get_at_expiry_instant_counterexample:
  "\<not> ((100::int) < 0 + 100) \<and>
   fst (CacheManager_get 100 (snd (CacheManager_set 0 (new_CacheManager 0 DEFAULT_CONFIG) ''k'' (42::int) (Some 100))) ''k'') = Some 42"
  by (simp add: CacheManager_get_def CacheManager_set_def new_CacheManager_def DEFAULT_CONFIG_def
      effectiveTtl_def isExpired_def countRequest_def countHit_def updateCacheHitRate_def Let_def)


text \<open>
  Claim C10. \<^verbatim>\<open>has(key)\<close> returns true iff the key holds an entry with
  \<open>now - timestamp \<le> ttl\<close>, which is exactly when \<^verbatim>\<open>get(key)\<close> returns a value. On a hit
  \<^verbatim>\<open>has\<close> leaves the whole manager unchanged (entries, access times, counters), where
  \<^verbatim>\<open>get\<close> writes \<open>now\<close> into \<^verbatim>\<open>accessTimes\<close>. Otherwise \<^verbatim>\<open>has\<close> leaves the same entries and
  access times as \<^verbatim>\<open>get\<close> does, and an expired entry is removed from both maps.
\<close>

theorem has_expiry_and_frame:
  assumes "CacheManager_has now cm k = (b, cm')"
  shows "(b \<longleftrightarrow> (\<exists>e. map_of (cache cm) k = Some e \<and> now - timestamp e \<le> ttl e))
       \<and> (b \<longleftrightarrow> fst (CacheManager_get now cm k) \<noteq> None)
       \<and> (b \<longrightarrow> cm' = cm)
       \<and> (b \<longrightarrow> accessTimes (snd (CacheManager_get now cm k))
                  = AList.update k now (accessTimes cm))
       \<and> (\<not> b \<longrightarrow> cache cm' = cache (snd (CacheManager_get now cm k))
                  \<and> accessTimes cm' = accessTimes (snd (CacheManager_get now cm k)))
       \<and> ((\<exists>e. map_of (cache cm) k = Some e \<and> ttl e < now - timestamp e) \<longrightarrow>
              k \<notin> fst ` set (cache cm') \<and> k \<notin> fst ` set (accessTimes cm'))"
proof (cases "map_of (cache cm) k")
  case None
  then show ?thesis
    using assms
    by (auto simp: CacheManager_has_def CacheManager_get_def countRequest_def countMiss_def
        updateCacheHitRate_def Let_def)
next
  case (Some e)
  then show ?thesis
    using assms
    by (auto simp: CacheManager_has_def get_entry[OF Some] isExpired_def countRequest_def
        countMiss_def countHit_def updateCacheHitRate_def CacheManager_delete_def
        pair_notin_delete split: if_splits)
qed

theorem has_expiry_and_frame_witness:
  "CacheManager_has 50 (snd (CacheManager_set 0 (new_CacheManager 0 DEFAULT_CONFIG) ''k'' (42::int) (Some 100))) ''k''
     = (True, snd (CacheManager_set 0 (new_CacheManager 0 DEFAULT_CONFIG) ''k'' (42::int) (Some 100)))
   \<and> fst (CacheManager_has 150 (snd (CacheManager_set 0 (new_CacheManager 0 DEFAULT_CONFIG) ''k'' (42::int) (Some 100))) ''k'') = False
   \<and> cache (snd (CacheManager_has 150 (snd (CacheManager_set 0 (new_CacheManager 0 DEFAULT_CONFIG) ''k'' (42::int) (Some 100))) ''k'')) = []"
  using has_expiry_and_frame[OF surjective_pairing, of 50 "snd (CacheManager_set 0 (new_CacheManager 0 DEFAULT_CONFIG) ''k'' (42::int) (Some 100))" "''k''"]
        has_expiry_and_frame[OF surjective_pairing, of 150 "snd (CacheManager_set 0 (new_CacheManager 0 DEFAULT_CONFIG) ''k'' (42::int) (Some 100))" "''k''"]
  by (simp add: CacheManager_has_def CacheManager_set_def new_CacheManager_def DEFAULT_CONFIG_def
      effectiveTtl_def isExpired_def CacheManager_delete_def Let_def)

text \<open>
  Where the claim about eviction holds. Let the keys of \<^verbatim>\<open>cache\<close> be those of
  \<^verbatim>\<open>accessTimes\<close>, the store be at capacity and the key be new. When the scan selects a key
  (some access time is earlier than the current clock value) and that key is not the
  empty string, \<^verbatim>\<open>set\<close> evicts exactly the entry with the oldest access time and the size
  of the store is unchanged. A key already present is overwritten in place and nothing is
  evicted.
\<close>

lemma oldest_fold:
  "fold (\<lambda>(k, accessTime) (oldestKey, oldestTime).
             if accessTime < oldestTime then (Some k, accessTime)
             else (oldestKey, oldestTime)) ats (ok, ot :: int) = (rk, rt)
   \<Longrightarrow> (\<forall>(k, t) \<in> set ats. rt \<le> t)
       \<and> ((rk = ok \<and> rt = ot) \<or> (\<exists>k. rk = Some k \<and> (k, rt) \<in> set ats \<and> rt < ot))"
proof (induction ats arbitrary: ok ot)
  case Nil
  then show ?case by simp
next
  case (Cons p ats)
  obtain k t where p: "p = (k, t)" by (cases p)
  show ?case
  proof (cases "t < ot")
    case True
    with Cons.prems p have
      "fold (\<lambda>(k, accessTime) (oldestKey, oldestTime).
             if accessTime < oldestTime then (Some k, accessTime)
             else (oldestKey, oldestTime)) ats (Some k, t) = (rk, rt)"
      by simp
    from Cons.IH[OF this] True p show ?thesis by auto
  next
    case False
    with Cons.prems p have
      "fold (\<lambda>(k, accessTime) (oldestKey, oldestTime).
             if accessTime < oldestTime then (Some k, accessTime)
             else (oldestKey, oldestTime)) ats (ok, ot) = (rk, rt)"
      by simp
    from Cons.IH[OF this] False p show ?thesis by auto
  qed
qed

lemma oldestScan_Some:
  assumes "oldestScan now ats = (Some k0, t0)"
  shows "(k0, t0) \<in> set ats \<and> t0 < now \<and> (\<forall>(k, t) \<in> set ats. t0 \<le> t)"
  using oldest_fold[OF assms[unfolded oldestScan_def]] by auto

lemma oldestScan_finds:
  assumes "(k, t) \<in> set ats" "t < now"
  shows "\<exists>k0 t0. oldestScan now ats = (Some k0, t0)"
proof -
  obtain rk rt where r: "oldestScan now ats = (rk, rt)" by (cases "oldestScan now ats")
  from oldest_fold[OF r[unfolded oldestScan_def]] assms
  have "rk \<noteq> None" by fastforce
  with r show ?thesis by auto
qed

lemma length_delete_present:
  "distinct (map fst xs) \<Longrightarrow> k \<in> fst ` set xs \<Longrightarrow> Suc (length (AList.delete k xs)) = length xs"
proof (induction xs)
  case Nil
  then show ?case by simp
next
  case (Cons p xs)
  show ?case
  proof (cases "fst p = k")
    case True
    then have "k \<notin> fst ` set xs" using Cons.prems(1) by auto
    then have "AList.delete k xs = xs"
      by (force simp: AList.delete_eq filter_id_conv)
    with True show ?thesis by (cases p) (simp add: AList.delete_eq)
  next
    case False
    then have "k \<in> fst ` set xs" using Cons.prems(2) by auto
    with Cons False show ?thesis by (cases p) (simp add: AList.delete_eq)
  qed
qed

lemma length_update_new:
  assumes "k \<notin> fst ` set xs"
  shows "length (AList.update k v xs) = Suc (length xs)"
proof -
  have "length (map fst (AList.update k v xs)) = Suc (length xs)"
    using assms by (simp add: AList.update_keys)
  then show ?thesis by simp
qed

lemma set_at_capacity_evicts_oldest:
  assumes keys: "distinct (map fst (cache cm))"
      and lockstep: "fst ` set (accessTimes cm) = fst ` set (cache cm)"
      and full: "int (length (cache cm)) = maxCacheSize (config cm)"
      and new: "map_of (cache cm) k = None"
      and scan: "oldestScan now (accessTimes cm) = (Some k0, t0)"
      and ne: "k0 \<noteq> []"
  shows "length (cache (snd (CacheManager_set now cm k d ttl_opt))) = length (cache cm)
       \<and> (k0, t0) \<in> set (accessTimes cm)
       \<and> (\<forall>(k', t') \<in> set (accessTimes cm). t0 \<le> t')
       \<and> fst ` set (cache (snd (CacheManager_set now cm k d ttl_opt)))
           = insert k (fst ` set (cache cm) - {k0})
       \<and> evictions (stats (snd (CacheManager_set now cm k d ttl_opt)))
           = Suc (evictions (stats cm))"
proof -
  from oldestScan_Some[OF scan] have o: "(k0, t0) \<in> set (accessTimes cm)"
      "\<forall>(k', t') \<in> set (accessTimes cm). t0 \<le> t'"
    by auto
  then have k0_in: "k0 \<in> fst ` set (cache cm)" using lockstep by force
  have k_notin: "k \<notin> fst ` set (cache cm)" using new by (simp add: map_of_eq_None_iff)
  then have kk: "k \<noteq> k0" using k0_in by auto
  have len: "Suc (length (AList.delete k0 (cache cm))) = length (cache cm)"
    by (rule length_delete_present[OF keys k0_in])
  have k_notin': "k \<notin> fst ` set (AList.delete k0 (cache cm))"
    using k_notin by (auto simp: AList.delete_eq)
  have set_del: "fst ` set (AList.delete k0 (cache cm)) = fst ` set (cache cm) - {k0}"
    by (auto simp: AList.delete_eq image_iff)
  have res: "cache (snd (CacheManager_set now cm k d ttl_opt))
       = AList.update k \<lparr>data = d, timestamp = now, ttl = effectiveTtl (config cm) ttl_opt, key = k\<rparr>
           (AList.delete k0 (cache cm))"
    and ev: "evictions (stats (snd (CacheManager_set now cm k d ttl_opt)))
           = Suc (evictions (stats cm))"
    using full new scan ne
    by (simp_all add: CacheManager_set_def evictLeastRecentlyUsed_def CacheManager_delete_def Let_def)
  show ?thesis
    using o len k_notin' set_del ev
    by (simp add: res length_update_new AList.dom_update)
qed

lemma set_present_overwrites:
  assumes "map_of (cache cm) k = Some e"
  shows "map fst (cache (snd (CacheManager_set now cm k d ttl_opt))) = map fst (cache cm)
       \<and> evictions (stats (snd (CacheManager_set now cm k d ttl_opt))) = evictions (stats cm)
       \<and> map_of (cache (snd (CacheManager_set now cm k d ttl_opt))) k
           = Some \<lparr>data = d, timestamp = now, ttl = effectiveTtl (config cm) ttl_opt, key = k\<rparr>"
proof -
  have "k \<in> fst ` set (cache cm)" using assms by (metis map_of_eq_None_iff option.distinct(1))
  then show ?thesis
    using assms
    by (simp add: CacheManager_set_def Let_def AList.update_keys update_conv' image_iff)
qed

text \<open>
  Claim C4 at two failing inputs, both with \<^verbatim>\<open>maxCacheSize = 1\<close>. First: \<^verbatim>\<open>set("a", 1)\<close> and
  \<^verbatim>\<open>set("b", 2)\<close> in the same millisecond \<open>5\<close>. The store is at capacity before the
  second call and \<^verbatim>\<open>"b"\<close> is new, but the scan starts from \<^verbatim>\<open>oldestTime = Date.now()\<close> and
  no access time is strictly smaller, so nothing is evicted and the store holds two
  entries. Second: the only entry has the empty string as key and an older access time;
  the scan selects it, \<^verbatim>\<open>if (oldestKey)\<close> is false for the empty string, and again nothing
  is evicted.
\<close>

theorem set_at_capacity_no_eviction:
  "int (CacheManager_size (snd (CacheManager_set 5
          (new_CacheManager 5 (DEFAULT_CONFIG\<lparr>maxCacheSize := 1\<rparr>)) ''a'' (1::int) None))) = 1
   \<and> map fst (cache (snd (CacheManager_set 5 (snd (CacheManager_set 5
          (new_CacheManager 5 (DEFAULT_CONFIG\<lparr>maxCacheSize := 1\<rparr>)) ''a'' (1::int) None))
          ''b'' 2 None))) = [''a'', ''b'']
   \<and> evictions (stats (snd (CacheManager_set 5 (snd (CacheManager_set 5
          (new_CacheManager 5 (DEFAULT_CONFIG\<lparr>maxCacheSize := 1\<rparr>)) ''a'' (1::int) None))
          ''b'' 2 None))) = 0
   \<and> map fst (cache (snd (CacheManager_set 9 (snd (CacheManager_set 5
          (new_CacheManager 5 (DEFAULT_CONFIG\<lparr>maxCacheSize := 1\<rparr>)) [] (1::int) None))
          ''b'' 2 None))) = [[], ''b'']"
  by (simp add: CacheManager_set_def CacheManager_size_def new_CacheManager_def DEFAULT_CONFIG_def
      effectiveTtl_def evictLeastRecentlyUsed_def oldestScan_def CacheManager_delete_def Let_def)

section \<open>Properties of the editor registry\<close>

lemma findIndex_Some:
  "findIndex P xs = Some i \<Longrightarrow> i < length xs \<and> P (xs ! i)"
  by (induction xs arbitrary: i) (auto split: if_splits)

lemma findIndex_None: "findIndex P xs = None \<longleftrightarrow> (\<forall>x \<in> set xs. \<not> P x)"
  by (induction xs) auto

lemma defaultCount_card:
  "defaultCount xs = card {i. i < length xs \<and> isDefault (xs ! i)}"
  by (simp add: defaultCount_def length_filter_conv_card)

lemma defaultCount_append [simp]:
  "defaultCount (xs @ ys) = defaultCount xs + defaultCount ys"
  by (simp add: defaultCount_def)

lemma defaultCount_cleared [simp]:
  "defaultCount (map (\<lambda>e. e\<lparr>isDefault := False\<rparr>) xs) = 0"
  by (simp add: defaultCount_def filter_map o_def)

lemma defaultCount_flags:
  "defaultCount zs = length (filter (\<lambda>b. b) (map isDefault zs))"
  by (simp add: defaultCount_def filter_map o_def)

lemma defaultCount_same_flags:
  assumes "map isDefault ys = map isDefault xs"
  shows "defaultCount ys = defaultCount xs"
  unfolding defaultCount_flags assms ..

lemma unique_default:
  assumes "defaultCount xs = 1" "i < length xs" "isDefault (xs ! i)"
          "j < length xs" "isDefault (xs ! j)"
  shows "j = i"
proof -
  let ?S = "{k. k < length xs \<and> isDefault (xs ! k)}"
  have "card ?S = 1" using assms(1) by (simp add: defaultCount_card)
  then obtain k where "?S = {k}" by (auto simp: card_1_singleton_iff)
  moreover have "i \<in> ?S" "j \<in> ?S" using assms by auto
  ultimately show ?thesis by auto
qed

lemma count_one_at:
  assumes "i < length ys" "isDefault (ys ! i)"
      and "\<And>j. j < length ys \<Longrightarrow> j \<noteq> i \<Longrightarrow> \<not> isDefault (ys ! j)"
  shows "defaultCount ys = 1"
proof -
  have "{k. k < length ys \<and> isDefault (ys ! k)} = {i}"
    using assms by auto
  then show ?thesis by (simp add: defaultCount_card)
qed

lemma invariant_add:
  assumes "registryInvariant xs" "uuid \<notin> set (map id_ec xs)"
  shows "registryInvariant (snd (addEditor now uuid stored xs c))"
  using assms
  by (auto simp: addEditor_def registryInvariant_def Let_def defaultCount_def o_def
      split: if_splits)


lemma count_id_distinct:
  assumes "distinct (map id_ec xs)" "x \<in> set xs"
  shows "length (filter (\<lambda>e. id_ec e = id_ec x) xs) = 1"
  using assms
proof (induction xs)
  case Nil
  then show ?case by simp
next
  case (Cons a xs)
  show ?case
  proof (cases "id_ec a = id_ec x")
    case True
    then have "\<forall>e \<in> set xs. id_ec e \<noteq> id_ec x"
      using Cons.prems(1) by (auto simp: image_iff)
    then have "filter (\<lambda>e. id_ec e = id_ec x) xs = []"
      by (simp add: filter_empty_conv)
    with True show ?thesis by simp
  next
    case False
    then have "x \<in> set xs" using Cons.prems(2) by auto
    with Cons False show ?thesis by simp
  qed
qed

lemma invariant_setDefault:
  assumes "registryInvariant xs"
  shows "registryInvariant (snd (setDefaultEditor now stored xs i))"
proof (cases "list_ex (\<lambda>e. id_ec e = i) xs \<and> stored")
  case False
  then show ?thesis using assms by (auto simp: setDefaultEditor_def Let_def)
next
  case True
  let ?f = "\<lambda>e. if id_ec e = i then e\<lparr>isDefault := True, updatedAt := now\<rparr>
                else e\<lparr>isDefault := False\<rparr>"
  from True obtain x where x: "x \<in> set xs" "id_ec x = i"
    by (auto simp: list_ex_iff)
  have res: "snd (setDefaultEditor now stored xs i) = map ?f xs"
    using True by (simp add: setDefaultEditor_def Let_def)
  have ids: "map id_ec (map ?f xs) = map id_ec xs"
    by (induction xs) auto
  have "filter isDefault (map ?f xs) = map ?f (filter (\<lambda>e. id_ec e = i) xs)"
    by (induction xs) auto
  then have "defaultCount (map ?f xs) = length (filter (\<lambda>e. id_ec e = id_ec x) xs)"
    using x(2) by (simp add: defaultCount_def)
  also have "\<dots> = 1"
    using assms x(1) by (intro count_id_distinct) (auto simp: registryInvariant_def)
  finally show ?thesis
    using assms x(1) unfolding res registryInvariant_def ids by auto
qed

lemma only_default:
  assumes "defaultCount xs = 1" "d \<in> set xs" "isDefault d" "e \<in> set xs" "isDefault e"
  shows "e = d"
proof -
  obtain i where i: "i < length xs" "xs ! i = d" using assms(2) by (auto simp: in_set_conv_nth)
  obtain j where j: "j < length xs" "xs ! j = e" using assms(4) by (auto simp: in_set_conv_nth)
  have "j = i" using unique_default[OF assms(1) i(1) _ j(1)] i j assms by simp
  then show ?thesis using i j by simp
qed

lemma invariant_delete:
  assumes "registryInvariant xs"
  shows "registryInvariant (snd (deleteEditor stored xs i))"
proof (cases "findIndex (\<lambda>e. id_ec e = i) xs")
  case None
  then show ?thesis using assms by (simp add: deleteEditor_def)
next
  case (Some k)
  then have k: "k < length xs" "id_ec (xs ! k) = i"
    using findIndex_Some[OF Some] by auto
  let ?del = "xs ! k"
  let ?rest = "filter (\<lambda>e. id_ec e \<noteq> i) xs"
  have del_in: "?del \<in> set xs" using k by simp
  have ne: "xs \<noteq> []" using k by auto
  then have one: "defaultCount xs = 1" using assms by (simp add: registryInvariant_def)
  have dist: "distinct (map id_ec xs)" using assms by (simp add: registryInvariant_def)
  have dist_rest: "distinct (map id_ec ?rest)"
    using dist by (simp add: distinct_map_filter)
  have cnt: "defaultCount ?rest = (if isDefault ?del then 0 else 1)"
  proof (cases "isDefault ?del")
    case True
    have "\<forall>e \<in> set ?rest. \<not> isDefault e"
    proof
      fix e assume e: "e \<in> set ?rest"
      show "\<not> isDefault e"
      proof
        assume "isDefault e"
        then have "e = ?del" using only_default[OF one del_in True, of e] e by auto
        then show False using e k(2) by auto
      qed
    qed
    then have "filter isDefault ?rest = []" by (auto simp add: filter_empty_conv)
    then show ?thesis using True by (simp add: defaultCount_def)
  next
    case False
    obtain d where d: "filter isDefault xs = [d]"
      using one by (auto simp: defaultCount_def length_Suc_conv)
    then have d_in: "d \<in> set xs" "isDefault d"
      using filter_eq_ConsD[OF d] by auto
    have "id_ec d \<noteq> i"
    proof
      assume "id_ec d = i"
      then have "id_ec d = id_ec ?del" using k(2) by simp
      then have "d = ?del"
        using dist d_in(1) del_in by (meson distinct_map inj_onD)
      then show False using False d_in(2) by simp
    qed
    moreover have "filter isDefault ?rest = filter (\<lambda>e. id_ec e \<noteq> i) (filter isDefault xs)"
      by (simp add: conj_commute)
    ultimately show ?thesis using False d by (simp add: defaultCount_def)
  qed
  show ?thesis
  proof (cases stored)
    case False
    then show ?thesis using assms Some by (simp add: deleteEditor_def Let_def)
  next
    case True
    show ?thesis
    proof (cases ?rest)
      case Nil
      then show ?thesis
        using True Some by (simp add: deleteEditor_def Let_def registryInvariant_def defaultCount_def)
    next
      case (Cons e es)
      then show ?thesis
        using True Some cnt dist_rest
        by (auto simp: deleteEditor_def Let_def registryInvariant_def defaultCount_def
            split: if_splits)
    qed
  qed
qed


lemma applyUpdates_id [simp]: "id_ec (applyUpdates now e u) = id_ec e"
  by (simp add: applyUpdates_def)

lemma map_update_same:
  assumes "k < length xs" "f y = f (xs ! k)"
  shows "map f (xs[k := y]) = map f xs"
proof -
  have "map f (xs[k := y]) = (map f xs)[k := map f xs ! k]"
    using assms by (simp add: map_update)
  then show ?thesis by (simp only: list_update_id)
qed

lemma invariant_update:
  assumes inv: "registryInvariant xs"
      and adm: "admissible xs (UpdateEditor now stored i u)"
  shows "registryInvariant (snd (updateEditor now stored xs i u))"
proof (cases "findIndex (\<lambda>e. id_ec e = i) xs")
  case None
  then show ?thesis using inv by (simp add: updateEditor_def)
next
  case (Some k)
  then have k: "k < length xs" "id_ec (xs ! k) = i"
    using findIndex_Some[OF Some] by auto
  let ?orig = "xs ! k"
  let ?upd = "applyUpdates now ?orig u"
  let ?g = "\<lambda>(j, e). if j \<noteq> k then e\<lparr>isDefault := False\<rparr> else e"
  have ne: "xs \<noteq> []" using k by auto
  then have one: "defaultCount xs = 1" using inv by (simp add: registryInvariant_def)
  have dist: "distinct (map id_ec xs)" using inv by (simp add: registryInvariant_def)
  show ?thesis
  proof (cases "isValid (validateEditorConfig ?upd) \<and> stored")
    case False
    then show ?thesis using inv Some by (auto simp: updateEditor_def Let_def)
  next
    case True
    show ?thesis
    proof (cases "isDefault ?upd \<and> \<not> isDefault ?orig")
      case becomes: True
      let ?ys = "(map ?g (enumerate 0 xs))[k := ?upd]"
      have res: "snd (updateEditor now stored xs i u) = ?ys"
        using Some True becomes by (simp add: updateEditor_def Let_def)
      have len: "length ?ys = length xs" by simp
      have nth: "\<And>j. j < length xs \<Longrightarrow>
          ?ys ! j = (if j = k then ?upd else (xs ! j)\<lparr>isDefault := False\<rparr>)"
        by (simp add: nth_list_update nth_enumerate_eq)
      have ids: "map id_ec ?ys = map id_ec xs"
      proof (rule nth_equalityI)
        show "length (map id_ec ?ys) = length (map id_ec xs)" by simp
      next
        fix j assume "j < length (map id_ec ?ys)"
        then have j: "j < length xs" by simp
        then show "map id_ec ?ys ! j = map id_ec xs ! j"
          using k by (simp add: nth_list_update nth_enumerate_eq)
      qed
      have "defaultCount ?ys = 1"
      proof (rule count_one_at[of k])
        show "k < length ?ys" using k by simp
        show "isDefault (?ys ! k)" using k becomes by simp
        show "\<And>j. j < length ?ys \<Longrightarrow> j \<noteq> k \<Longrightarrow> \<not> isDefault (?ys ! j)"
          by (simp add: nth_list_update nth_enumerate_eq)
      qed
      moreover have "?ys \<noteq> []"
        using len ne by (metis length_0_conv)
      ultimately show ?thesis
        unfolding res registryInvariant_def ids using dist by simp
    next
      case same: False
      let ?ys = "xs[k := ?upd]"
      have res: "snd (updateEditor now stored xs i u) = ?ys"
        using Some True same by (auto simp: updateEditor_def Let_def)
      have flag: "isDefault ?upd = isDefault ?orig"
      proof (cases "isDefault ?orig")
        case True
        then have "list_ex (\<lambda>e. id_ec e = i \<and> isDefault e) xs"
          using k by (auto simp: list_ex_iff)
        then have "newIsDefault u \<noteq> Some False" using adm by auto
        then show ?thesis using True by (auto simp: applyUpdates_def split: option.splits)
      next
        case False
        then show ?thesis using same by simp
      qed
      have ids: "map id_ec ?ys = map id_ec xs"
        using k(1) by (rule map_update_same) simp
      have "map isDefault ?ys = map isDefault xs"
        using k(1) flag by (rule map_update_same)
      then have "defaultCount ?ys = defaultCount xs" by (rule defaultCount_same_flags)
      then show ?thesis
        unfolding res registryInvariant_def ids using dist ne one by auto
    qed
  qed
qed

text \<open>
  The invariant is kept by every admissible request, and so by every admissible run:
  adding with a new id, deleting, setting the default, and every update except one that
  sets \<^verbatim>\<open>isDefault\<close> to \<^verbatim>\<open>false\<close> on the default editor.
\<close>

lemma invariant_applyRequest:
  assumes "registryInvariant xs" "admissible xs req"
  shows "registryInvariant (applyRequest xs req)"
  using assms
  by (cases req) (auto intro: invariant_add invariant_update invariant_delete invariant_setDefault)

lemma invariant_runRequests:
  assumes "registryInvariant xs" "admissibleRun xs reqs"
  shows "registryInvariant (runRequests xs reqs)"
  using assms unfolding runRequests_def
  by (induction reqs arbitrary: xs) (auto intro: invariant_applyRequest)

text \<open>
  Deleting the default editor removes the editors with that id, keeps the order of the
  others and makes the first of them, if there is one, the default.
\<close>

lemma deleteEditor_promotes_first:
  assumes "findIndex (\<lambda>e. id_ec e = i) xs = Some k" "isDefault (xs ! k)"
      and "deleteEditor True xs i = (ok, ys)"
  shows "ok \<and> map id_ec ys = filter (\<lambda>x. x \<noteq> i) (map id_ec xs)
       \<and> (ys \<noteq> [] \<longrightarrow> isDefault (hd ys))"
  using assms
  by (auto simp: deleteEditor_def Let_def filter_map o_def split: list.splits)

text \<open>
  Claim C2 at a failing input. \<^verbatim>\<open>addEditor\<close> on the empty registry makes the new editor the
  default; \<^verbatim>\<open>updateEditor(id, {isDefault: false})\<close> on that editor then stores it without
  the flag. The registry is not empty and no editor in it is the default, where the
  claim says exactly one is. \<^verbatim>\<open>addEditor\<close> and \<^verbatim>\<open>deleteEditor\<close> restore a default in the
  corresponding situations; \<^verbatim>\<open>updateEditor\<close> only handles an editor that becomes the
  default.
\<close>

theorem updateEditor_clears_only_default:
  "registryInvariant (runRequests [] [AddEditor 1 ''u1'' True ideaEditor])
   \<and> runRequests [] [AddEditor 1 ''u1'' True ideaEditor,
                      UpdateEditor 2 True ''u1'' (noUpdates\<lparr>newIsDefault := Some False\<rparr>)]
       = [ideaEditor\<lparr>id_ec := ''u1'', isDefault := False, createdAt := 1, updatedAt := 2\<rparr>]
   \<and> defaultCount (runRequests [] [AddEditor 1 ''u1'' True ideaEditor,
                      UpdateEditor 2 True ''u1'' (noUpdates\<lparr>newIsDefault := Some False\<rparr>)]) = 0"
  by (simp add: runRequests_def addEditor_def updateEditor_def applyUpdates_def noUpdates_def
      validateEditorConfig_def ideaEditor_def trim_def isWhiteSpace_def registryInvariant_def
      defaultCount_def Let_def)

section \<open>Properties of the command executor\<close>

text \<open>
  Claim C3. On \<^verbatim>\<open>darwin\<close> and on \<^verbatim>\<open>linux\<close>, the command built for editor path
  \<^verbatim>\<open>/Applications/IntelliJ IDEA CE.app/Contents/MacOS/idea\<close>, file
  \<^verbatim>\<open>/Users/x/proj/src/main.kt\<close> and line 42 is exactly the \<^verbatim>\<open>nohup\<close> line below; on
  \<^verbatim>\<open>win32\<close>, the command built for editor path \<^verbatim>\<open>C:\IDE\idea64.exe\<close>, file
  \<^verbatim>\<open>C:\proj\Main.java\<close> and line 7 has both paths in double quotes and every backslash
  doubled. The executor is freshly constructed (nothing cached); the other fields of the
  editor and of the request are arbitrary.
\<close>

theorem command_construction_examples:
  \<open>fst (buildCommand now (new_CommandExecutor (new_CacheManager now DEFAULT_CONFIG) ''darwin'' a v)
          (params\<lparr>editor := Some (e\<lparr>path := ''/Applications/IntelliJ IDEA CE.app/Contents/MacOS/idea''\<rparr>),
                  filePath := ''/Users/x/proj/src/main.kt'', lineNumber := 42\<rparr>))
     = Inr (CachedString ''nohup '/Applications/IntelliJ IDEA CE.app/Contents/MacOS/idea' --line 42 "/Users/x/proj/src/main.kt" > /dev/null 2>&1 &'')
   \<and> fst (buildCommand now (new_CommandExecutor (new_CacheManager now DEFAULT_CONFIG) ''linux'' a v)
          (params\<lparr>editor := Some (e\<lparr>path := ''/Applications/IntelliJ IDEA CE.app/Contents/MacOS/idea''\<rparr>),
                  filePath := ''/Users/x/proj/src/main.kt'', lineNumber := 42\<rparr>))
     = Inr (CachedString ''nohup '/Applications/IntelliJ IDEA CE.app/Contents/MacOS/idea' --line 42 "/Users/x/proj/src/main.kt" > /dev/null 2>&1 &'')
   \<and> fst (buildCommand now (new_CommandExecutor (new_CacheManager now DEFAULT_CONFIG) ''win32'' a v)
          (params\<lparr>editor := Some (e\<lparr>path := ''C:'' @ backslash @ ''IDE'' @ backslash @ ''idea64.exe''\<rparr>),
                  filePath := ''C:'' @ backslash @ ''proj'' @ backslash @ ''Main.java'', lineNumber := 7\<rparr>))
     = Inr (CachedString (dquote @ ''C:'' @ backslash @ backslash @ ''IDE'' @ backslash @ backslash @ ''idea64.exe'' @ dquote
                          @ '' --line 7 ''
                          @ dquote @ ''C:'' @ backslash @ backslash @ ''proj'' @ backslash @ backslash @ ''Main.java'' @ dquote))\<close>
  by (simp add: buildCommand_def buildFresh_def generateCommandCacheKey_def new_CommandExecutor_def
      new_CacheManager_def CacheManager_get_def countRequest_def countMiss_def
      updateCacheHitRate_def selectBuilder_def initializeCommandBuilders_def
      initializePlatformInfo_def darwinBuilder_def linuxBuilder_def unixBuilder_def
      win32Builder_def escapeUnixPath_def escapeWindowsPath_def replaceAllChar_def
      showInt_def digitChar_def Let_def)

lemma selectBuilder_cacheManager [simp]:
  "selectBuilder (ex\<lparr>cacheManager := cm\<rparr>) = selectBuilder ex"
  by (simp add: selectBuilder_def split: option.splits)

lemma buildCommand_unfold:
  assumes "editor p = Some e"
      and "k = ''command:'' @ id_ec e @ '':'' @ platform (platformInfo ex)"
  shows "buildCommand now ex p =
    (case fst (CacheManager_get now (cacheManager ex) k) of
       None \<Rightarrow> buildFresh now (ex\<lparr>cacheManager := snd (CacheManager_get now (cacheManager ex) k)\<rparr>) p k
     | Some v \<Rightarrow>
         if truthy v then (Inr v, ex\<lparr>cacheManager := snd (CacheManager_get now (cacheManager ex) k)\<rparr>)
         else buildFresh now (ex\<lparr>cacheManager := snd (CacheManager_get now (cacheManager ex) k)\<rparr>) p k)"
  using assms(1) unfolding assms(2)
  by (simp add: buildCommand_def generateCommandCacheKey_def Let_def split_beta
      cong: option.case_cong if_cong)

text \<open>
  Claim C9. The cache key of a command is built from the editor id and the platform
  only. Let a first \<^verbatim>\<open>buildCommand\<close> at time \<open>t1\<close> find no usable cached command, build the
  non-empty command \<open>c1\<close> and cache it. A second call at time \<open>t2\<close> on the resulting
  executor, for any request with the same editor id, returns \<open>c1\<close> when
  \<open>t2 - t1 \<le> 1000\<close>, whatever its file path and line number are; when \<open>t2 - t1 > 1000\<close> it
  returns what the selected builder makes of the second request.
\<close>

theorem buildCommand_cached_within_ttl:
  assumes ed: "editor p1 = Some e1" "editor p2 = Some e2" "id_ec e2 = id_ec e1"
      and k: "k = ''command:'' @ id_ec e1 @ '':'' @ platform (platformInfo ex)"
      and miss: "\<forall>v. fst (CacheManager_get t1 (cacheManager ex) k) = Some v \<longrightarrow> \<not> truthy v"
      and first: "buildCommand t1 ex p1 = (Inr (CachedString c1), ex1)"
      and ne: "c1 \<noteq> []"
  shows "(t2 - t1 \<le> 1000 \<longrightarrow> fst (buildCommand t2 ex1 p2) = Inr (CachedString c1))
       \<and> (1000 < t2 - t1 \<longrightarrow>
            (\<exists>b. selectBuilder ex = Some b
               \<and> fst (buildCommand t2 ex1 p2)
                   = (case b p2 (platformInfo ex) of
                        Inl err \<Rightarrow> Inl err
                      | Inr c2 \<Rightarrow> Inr (CachedString c2))))"
proof -
  let ?g = "CacheManager_get t1 (cacheManager ex) k"
  have "buildFresh t1 (ex\<lparr>cacheManager := snd ?g\<rparr>) p1 k = (Inr (CachedString c1), ex1)"
    using first miss unfolding buildCommand_unfold[OF ed(1) k]
    by (auto split: option.splits if_splits)
  then obtain b where b: "selectBuilder ex = Some b" "b p1 (platformInfo ex) = Inr c1"
    and ex1: "ex1 = ex\<lparr>cacheManager := snd (CacheManager_set t1 (snd ?g) k (CachedString c1) (Some 1000))\<rparr>"
    by (auto simp: buildFresh_def split: option.splits sum.splits)
  have entry: "map_of (cache (cacheManager ex1)) k
       = Some \<lparr>data = CachedString c1, timestamp = t1, ttl = 1000, key = k\<rparr>"
    unfolding ex1 by (simp add: cache_after_set effectiveTtl_def)
  have k2: "k = ''command:'' @ id_ec e2 @ '':'' @ platform (platformInfo ex1)"
    unfolding ex1 k ed(3) by simp
  have pf: "platformInfo ex1 = platformInfo ex" "selectBuilder ex1 = selectBuilder ex"
    unfolding ex1 by simp_all
  let ?ex2 = "ex1\<lparr>cacheManager := snd (CacheManager_get t2 (cacheManager ex1) k)\<rparr>"
  have second: "fst (buildCommand t2 ex1 p2) =
      (if t2 - t1 \<le> 1000 then Inr (CachedString c1) else fst (buildFresh t2 ?ex2 p2 k))"
    unfolding buildCommand_unfold[OF ed(2) k2] get_entry[OF entry]
    using ne by simp
  have fresh2: "fst (buildFresh t2 ?ex2 p2 k)
      = (case b p2 (platformInfo ex) of Inl err \<Rightarrow> Inl err | Inr c2 \<Rightarrow> Inr (CachedString c2))"
    using b(1) by (simp add: buildFresh_def pf split: sum.splits)
  show ?thesis
    using second fresh2 b(1) by simp
qed

lemmas exec_eval_defs =
  buildCommand_def buildFresh_def generateCommandCacheKey_def new_CommandExecutor_def
  new_CacheManager_def DEFAULT_CONFIG_def CacheManager_get_def CacheManager_set_def
  CacheManager_delete_def isExpired_def effectiveTtl_def
  countRequest_def countMiss_def countHit_def
  updateCacheHitRate_def selectBuilder_def initializeCommandBuilders_def
  initializePlatformInfo_def darwinBuilder_def linuxBuilder_def unixBuilder_def
  win32Builder_def escapeUnixPath_def escapeWindowsPath_def replaceAllChar_def
  showInt_def digitChar_def darwinExecutor_def jumpRequest_def ideaEditor_def

theorem buildCommand_cached_within_ttl_witness:
  \<open>fst (buildCommand 1000 (snd (buildCommand 0 darwinExecutor (jumpRequest ''/proj/a.kt'' 42)))
          (jumpRequest ''/proj/b.kt'' 7))
     = Inr (CachedString ''nohup '/opt/idea/bin/idea' --line 42 "/proj/a.kt" > /dev/null 2>&1 &'')
   \<and> fst (buildCommand 1001 (snd (buildCommand 0 darwinExecutor (jumpRequest ''/proj/a.kt'' 42)))
          (jumpRequest ''/proj/b.kt'' 7))
     = Inr (CachedString ''nohup '/opt/idea/bin/idea' --line 7 "/proj/b.kt" > /dev/null 2>&1 &'')\<close>
proof -
  let ?p1 = "jumpRequest ''/proj/a.kt'' 42"
  let ?p2 = "jumpRequest ''/proj/b.kt'' 7"
  let ?c1 = \<open>''nohup '/opt/idea/bin/idea' --line 42 "/proj/a.kt" > /dev/null 2>&1 &''\<close>
  let ?k = "''command:'' @ id_ec ideaEditor @ '':'' @ platform (platformInfo darwinExecutor)"
  have e1: "editor ?p1 = Some ideaEditor" and e2: "editor ?p2 = Some ideaEditor"
    by (simp_all add: jumpRequest_def)
  have m: "\<forall>v. fst (CacheManager_get 0 (cacheManager darwinExecutor) ?k) = Some v \<longrightarrow> \<not> truthy v"
    by (simp add: exec_eval_defs)
  have "fst (buildCommand 0 darwinExecutor ?p1) = Inr (CachedString ?c1)"
    by (simp add: exec_eval_defs)
  then have f: "buildCommand 0 darwinExecutor ?p1
      = (Inr (CachedString ?c1), snd (buildCommand 0 darwinExecutor ?p1))"
    by (simp add: prod_eq_iff)
  have ne: "?c1 \<noteq> []" by simp
  note t = buildCommand_cached_within_ttl[OF e1 e2 refl refl m f ne]
  have sb: "selectBuilder darwinExecutor = Some unixBuilder"
    by (simp add: exec_eval_defs)
  have b2: \<open>unixBuilder ?p2 (platformInfo darwinExecutor)
      = Inr ''nohup '/opt/idea/bin/idea' --line 7 "/proj/b.kt" > /dev/null 2>&1 &''\<close>
    by (simp add: exec_eval_defs)
  from t[of 1000] t[of 1001] show ?thesis
    by (simp add: sb b2)
qed

lemma trim_Nil [simp]: "trim [] = []"
  by (simp add: trim_def)

lemma verifyEditorPath_frame:
  "runningProcesses (snd (verifyEditorPath existsSync now ex p)) = runningProcesses ex
   \<and> errorHandler (snd (verifyEditorPath existsSync now ex p)) = errorHandler ex
   \<and> executionStats (snd (verifyEditorPath existsSync now ex p)) = executionStats ex"
  by (simp add: verifyEditorPath_def Let_def split_beta split: option.splits)

lemma verifyEditorPath_absent:
  assumes "\<not> existsSync p"
      and "\<forall>v. fst (CacheManager_get now (cacheManager ex) (''editor_path_exists:'' @ p)) = Some v
             \<longrightarrow> \<not> awaitedTruthy v"
  shows "\<not> fst (verifyEditorPath existsSync now ex p)"
  using assms
  by (simp add: verifyEditorPath_def Let_def split_beta split: option.splits)

lemma jumpBody_invalid:
  assumes "editor params = None \<or>
     (\<exists>e. editor params = Some e \<and>
        (trim (path e) = [] \<or> trim (filePath params) = [] \<or> lineNumber params < 1 \<or>
         (\<not> existsSync (path e) \<and>
          (\<forall>v. fst (CacheManager_get now (cacheManager ex) (''editor_path_exists:'' @ path e)) = Some v
                \<longrightarrow> \<not> awaitedTruthy v))))"
  shows "\<exists>ex1. jumpBody existsSync os now ex params
              = (Settled (Inl (case editor params of
                                 None \<Rightarrow> TypeError
                               | Some e \<Rightarrow>
                                   if trim (path e) = [] then EditorPathEmpty
                                   else if trim (filePath params) = [] then FilePathEmpty
                                   else if lineNumber params < 1 then LineNumberTooSmall
                                   else EditorPathNotFound (path e))), ex1, [])
           \<and> runningProcesses ex1 = runningProcesses ex
           \<and> errorHandler ex1 = errorHandler ex"
proof (cases "editor params")
  case None
  then show ?thesis by (simp add: jumpBody_def)
next
  case (Some e)
  show ?thesis
  proof (cases "validateExecutionParams params")
    case (Some err)
    then have "err = (if trim (path e) = [] then EditorPathEmpty
                      else if trim (filePath params) = [] then FilePathEmpty
                      else if lineNumber params < 1 then LineNumberTooSmall
                      else EditorPathNotFound (path e))"
      using \<open>editor params = Some e\<close>
      by (auto simp: validateExecutionParams_def split: if_splits)
    then show ?thesis
      using Some \<open>editor params = Some e\<close> by (simp add: jumpBody_def)
  next
    case None
    then have valid: "trim (path e) \<noteq> []" "trim (filePath params) \<noteq> []" "\<not> lineNumber params < 1"
      using \<open>editor params = Some e\<close>
      by (auto simp: validateExecutionParams_def split: if_splits)
    with assms \<open>editor params = Some e\<close>
    have "\<not> existsSync (path e)"
      and "\<forall>v. fst (CacheManager_get now (cacheManager ex) (''editor_path_exists:'' @ path e)) = Some v
             \<longrightarrow> \<not> awaitedTruthy v"
      by auto
    then have "\<not> fst (verifyEditorPath existsSync now ex (path e))"
      by (rule verifyEditorPath_absent)
    then show ?thesis
      using \<open>editor params = Some e\<close> None valid verifyEditorPath_frame[of existsSync now ex "path e"]
      by (simp add: jumpBody_def split_beta)
  qed
qed

text \<open>
  Claim C5, as the code has it. Let the editor be missing, or the editor path or the file
  path be empty or blank, or the line number be below 1, or the editor path not exist on
  disk while the cache holds no unexpired positive answer for that path. Then, whatever
  the injected handler does, \<^verbatim>\<open>executeJumpCommand\<close> starts no child process and registers
  none, and its only effect is one call of the handler, if one is set, with the error of
  the first failed check: the engine's \<open>TypeError\<close> for the read of \<^verbatim>\<open>params.editor.name\<close>
  when the editor is missing, otherwise the fixed message for an empty editor path, an
  empty file path, a line number below 1 or an editor path that does not exist, in this
  order; each of these messages is non-empty. If no handler is set, or the handler
  returns, the call is fulfilled with the result that has \<open>success = False\<close>, that error
  and the empty command, so nothing escapes; only if the handler itself throws is the
  call rejected, with what the handler threw.
\<close>

theorem executeJumpCommand_fails_before_launch:
  assumes bad: "editor params = None \<or>
     (\<exists>e. editor params = Some e \<and>
        (trim (path e) = [] \<or> trim (filePath params) = [] \<or> lineNumber params < 1 \<or>
         (\<not> existsSync (path e) \<and>
          (\<forall>v. fst (CacheManager_get now (cacheManager ex) (''editor_path_exists:'' @ path e)) = Some v
                \<longrightarrow> \<not> awaitedTruthy v))))"
  shows "\<exists>outcome err ex'.
           executeJumpCommand existsSync os now fin ex params
             = (outcome, ex', if errorHandler ex = None then [] else [HandlerCall err])
         \<and> err = (case editor params of
                    None \<Rightarrow> TypeError
                  | Some e \<Rightarrow>
                      if trim (path e) = [] then EditorPathEmpty
                      else if trim (filePath params) = [] then FilePathEmpty
                      else if lineNumber params < 1 then LineNumberTooSmall
                      else EditorPathNotFound (path e))
         \<and> runningProcesses ex' = runningProcesses ex
         \<and> outcome = (case errorHandler ex of
                        None \<Rightarrow>
                          Fulfilled \<lparr>success = False, error = Some err, command = [],
                                     executionTime = fin - now, processId = None\<rparr>
                      | Some h \<Rightarrow>
                          (case h err of
                             None \<Rightarrow>
                               Fulfilled \<lparr>success = False, error = Some err, command = [],
                                          executionTime = fin - now, processId = None\<rparr>
                           | Some thrown \<Rightarrow> Rejected thrown))"
proof -
  let ?ex = "ex\<lparr>executionStats := (executionStats ex)
                  \<lparr>totalExecutions := Suc (totalExecutions (executionStats ex))\<rparr>\<rparr>"
  define err where "err = (case editor params of
                None \<Rightarrow> TypeError
              | Some e \<Rightarrow>
                  if trim (path e) = [] then EditorPathEmpty
                  else if trim (filePath params) = [] then FilePathEmpty
                  else if lineNumber params < 1 then LineNumberTooSmall
                  else EditorPathNotFound (path e))"
  have bad': "editor params = None \<or>
     (\<exists>e. editor params = Some e \<and>
        (trim (path e) = [] \<or> trim (filePath params) = [] \<or> lineNumber params < 1 \<or>
         (\<not> existsSync (path e) \<and>
          (\<forall>v. fst (CacheManager_get now (cacheManager ?ex) (''editor_path_exists:'' @ path e)) = Some v
                \<longrightarrow> \<not> awaitedTruthy v))))"
    using bad by simp
  obtain ex1 where body: "jumpBody existsSync os now ?ex params = (Settled (Inl err), ex1, [])"
    and frame: "runningProcesses ex1 = runningProcesses ex" "errorHandler ex1 = errorHandler ex"
    using jumpBody_invalid[OF bad', of os] unfolding err_def by auto
  let ?ex2 = "updateExecutionStats False (fin - now) ex1"
  let ?failed = "\<lparr>success = False, error = Some err, command = [],
                  executionTime = fin - now, processId = None\<rparr>"
  have frame2: "runningProcesses ?ex2 = runningProcesses ex" "errorHandler ?ex2 = errorHandler ex"
    by (simp_all add: updateExecutionStats_def Let_def frame)
  have run: "executeJumpCommand existsSync os now fin ex params
      = (case errorHandler ex of
           None \<Rightarrow> (Fulfilled ?failed, ?ex2, [])
         | Some h \<Rightarrow>
             (case h err of
                None \<Rightarrow> (Fulfilled ?failed, ?ex2, [HandlerCall err])
              | Some thrown \<Rightarrow> (Rejected thrown, ?ex2, [HandlerCall err])))"
    unfolding executeJumpCommand_def Let_def body
    by (simp add: frame2 split: option.splits)
  have "executeJumpCommand existsSync os now fin ex params
          = (case errorHandler ex of
               None \<Rightarrow> Fulfilled ?failed
             | Some h \<Rightarrow> (case h err of None \<Rightarrow> Fulfilled ?failed
                                      | Some thrown \<Rightarrow> Rejected thrown),
             ?ex2, if errorHandler ex = None then [] else [HandlerCall err])"
    unfolding run by (simp split: option.splits)
  with frame2(1) err_def show ?thesis by blast
qed

lemmas jump_eval_defs =
  executeJumpCommand_def jumpBody_def validateExecutionParams_def verifyEditorPath_def
  executeCommand_def launchRequestFor_def containsShellOperators_def updateExecutionStats_def
  buildCommand_def buildFresh_def generateCommandCacheKey_def new_CommandExecutor_def
  new_CacheManager_def DEFAULT_CONFIG_def CacheManager_get_def CacheManager_set_def
  CacheManager_delete_def isExpired_def effectiveTtl_def
  countRequest_def countMiss_def countHit_def
  updateCacheHitRate_def selectBuilder_def initializeCommandBuilders_def
  initializePlatformInfo_def darwinBuilder_def linuxBuilder_def unixBuilder_def
  win32Builder_def escapeUnixPath_def escapeWindowsPath_def replaceAllChar_def
  showInt_def digitChar_def darwinExecutor_def jumpRequest_def ideaEditor_def
  diskAbsent_def diskPresent_def osSpawns_def handlerReturns_def handlerThrows_def
  setErrorHandler_def trim_def isWhiteSpace_def

theorem executeJumpCommand_fails_before_launch_witness:
  "(\<exists>ex'.
      executeJumpCommand diskAbsent osSpawns 0 5 (setErrorHandler darwinExecutor handlerReturns)
          (jumpRequest ''/proj/a.kt'' 42)
        = (Fulfilled \<lparr>success = False, error = Some (EditorPathNotFound ''/opt/idea/bin/idea''),
                      command = [], executionTime = 5, processId = None\<rparr>,
           ex', [HandlerCall (EditorPathNotFound ''/opt/idea/bin/idea'')])
      \<and> runningProcesses ex' = [])
   \<and> (\<exists>ex'.
      executeJumpCommand diskPresent osSpawns 0 5 darwinExecutor (jumpRequest ''/proj/a.kt'' 0)
        = (Fulfilled \<lparr>success = False, error = Some LineNumberTooSmall,
                      command = [], executionTime = 5, processId = None\<rparr>,
           ex', [])
      \<and> runningProcesses ex' = [])
   \<and> (\<exists>ex'.
      executeJumpCommand diskPresent osSpawns 0 5 (setErrorHandler darwinExecutor handlerReturns)
          ((jumpRequest ''/proj/a.kt'' 42)\<lparr>editor := None\<rparr>)
        = (Fulfilled \<lparr>success = False, error = Some TypeError,
                      command = [], executionTime = 5, processId = None\<rparr>,
           ex', [HandlerCall TypeError])
      \<and> runningProcesses ex' = [])
   \<and> (\<exists>ex'.
      executeJumpCommand diskAbsent osSpawns 0 5 (setErrorHandler darwinExecutor handlerThrows)
          (jumpRequest ''   '' 42)
        = (Rejected FilePathEmpty, ex', [HandlerCall FilePathEmpty])
      \<and> runningProcesses ex' = [])"
proof -
  have b1: "editor (jumpRequest ''/proj/a.kt'' 42) = None \<or>
     (\<exists>e. editor (jumpRequest ''/proj/a.kt'' 42) = Some e \<and>
        (trim (path e) = [] \<or> trim (filePath (jumpRequest ''/proj/a.kt'' 42)) = []
         \<or> lineNumber (jumpRequest ''/proj/a.kt'' 42) < 1 \<or>
         (\<not> diskAbsent (path e) \<and>
          (\<forall>v. fst (CacheManager_get 0 (cacheManager (setErrorHandler darwinExecutor handlerReturns))
                       (''editor_path_exists:'' @ path e)) = Some v
                \<longrightarrow> \<not> awaitedTruthy v))))"
    by (simp add: jump_eval_defs)
  have b2: "editor (jumpRequest ''/proj/a.kt'' 0) = None \<or>
     (\<exists>e. editor (jumpRequest ''/proj/a.kt'' 0) = Some e \<and>
        (trim (path e) = [] \<or> trim (filePath (jumpRequest ''/proj/a.kt'' 0)) = []
         \<or> lineNumber (jumpRequest ''/proj/a.kt'' 0) < 1 \<or>
         (\<not> diskPresent (path e) \<and>
          (\<forall>v. fst (CacheManager_get 0 (cacheManager darwinExecutor)
                       (''editor_path_exists:'' @ path e)) = Some v
                \<longrightarrow> \<not> awaitedTruthy v))))"
    by (simp add: jumpRequest_def)
  have b3: "editor ((jumpRequest ''/proj/a.kt'' 42)\<lparr>editor := None\<rparr>) = None \<or>
     (\<exists>e. editor ((jumpRequest ''/proj/a.kt'' 42)\<lparr>editor := None\<rparr>) = Some e \<and>
        (trim (path e) = [] \<or> trim (filePath ((jumpRequest ''/proj/a.kt'' 42)\<lparr>editor := None\<rparr>)) = []
         \<or> lineNumber ((jumpRequest ''/proj/a.kt'' 42)\<lparr>editor := None\<rparr>) < 1 \<or>
         (\<not> diskPresent (path e) \<and>
          (\<forall>v. fst (CacheManager_get 0 (cacheManager (setErrorHandler darwinExecutor handlerReturns))
                       (''editor_path_exists:'' @ path e)) = Some v
                \<longrightarrow> \<not> awaitedTruthy v))))"
    by simp
  have b4: "editor (jumpRequest ''   '' 42) = None \<or>
     (\<exists>e. editor (jumpRequest ''   '' 42) = Some e \<and>
        (trim (path e) = [] \<or> trim (filePath (jumpRequest ''   '' 42)) = []
         \<or> lineNumber (jumpRequest ''   '' 42) < 1 \<or>
         (\<not> diskAbsent (path e) \<and>
          (\<forall>v. fst (CacheManager_get 0 (cacheManager (setErrorHandler darwinExecutor handlerThrows))
                       (''editor_path_exists:'' @ path e)) = Some v
                \<longrightarrow> \<not> awaitedTruthy v))))"
    by (simp add: jumpRequest_def trim_def isWhiteSpace_def)
  have hr: "handlerReturns = (\<lambda>e. None)"
    by (rule ext) (simp add: handlerReturns_def)
  have ht: "handlerThrows = Some"
    by (rule ext) (simp add: handlerThrows_def)
  from executeJumpCommand_fails_before_launch[OF b1, of osSpawns 5]
       executeJumpCommand_fails_before_launch[OF b2, of osSpawns 5]
       executeJumpCommand_fails_before_launch[OF b3, of osSpawns 5]
       executeJumpCommand_fails_before_launch[OF b4, of osSpawns 5]
  show ?thesis
    by (simp add: setErrorHandler_def darwinExecutor_def new_CommandExecutor_def
                  hr ht jumpRequest_def ideaEditor_def
                  trim_def isWhiteSpace_def)
qed

text \<open>
  Claim C5 as stated fails at two inputs. First: a jump at time 0 finds the editor on
  disk and caches that answer for 5000 ms; the file is then removed; the same jump at
  time 3000 is answered from the cache, starts a shell and reports success. Second: with
  a handler that throws, a jump to an absent editor path rejects instead of returning a
  result.
\<close>

theorem executeJumpCommand_stale_path_counterexample:
  \<open>\<not> diskAbsent (path ideaEditor)
   \<and> validateExecutionParams (jumpRequest ''/proj/a.kt'' 42) = None
   \<and> fst (executeJumpCommand diskAbsent osSpawns 3000 3010
            (fst (snd (executeJumpCommand diskPresent osSpawns 0 10 darwinExecutor
                         (jumpRequest ''/proj/a.kt'' 42))))
            (jumpRequest ''/proj/a.kt'' 42))
       = Fulfilled \<lparr>success = True, error = None,
                    command = ''nohup '/opt/idea/bin/idea' --line 42 "/proj/a.kt" > /dev/null 2>&1 &'',
                    executionTime = 10, processId = Some 4711\<rparr>
   \<and> snd (snd (executeJumpCommand diskAbsent osSpawns 3000 3010
            (fst (snd (executeJumpCommand diskPresent osSpawns 0 10 darwinExecutor
                         (jumpRequest ''/proj/a.kt'' 42))))
            (jumpRequest ''/proj/a.kt'' 42)))
       = [Launch (ExecShell ''nohup '/opt/idea/bin/idea' --line 42 "/proj/a.kt" > /dev/null 2>&1 &'')]
   \<and> fst (executeJumpCommand diskAbsent osSpawns 0 10
            (setErrorHandler darwinExecutor handlerThrows) (jumpRequest ''/proj/a.kt'' 42))
       = Rejected (EditorPathNotFound ''/opt/idea/bin/idea'')\<close>
  by (simp add: jump_eval_defs Let_def)

section \<open>Properties of the debounced wrapper\<close>

lemma nodeDelay_le: "1 \<le> r \<Longrightarrow> nodeDelay r \<le> r"
  by (simp add: nodeDelay_def)

lemma nodeDelay_le_max: "nodeDelay w \<le> max 1 w"
  by (simp add: nodeDelay_def)

lemma burst_first_call:
  assumes "leading cfg = False" "maxWait cfg = None" "timerId q = None" "timers q = []"
  shows "burstState (wait cfg) t t a (invocations q) (debounced cfg t a q)"
  using assms nodeDelay_le_max[of "wait cfg"]
  by (simp add: burstState_def debounced_def leadingEdge_def startTimer_def Let_def)

lemma burst_step:
  assumes cfg: "leading cfg = False" "trailing cfg" "maxWait cfg = None"
      and inv: "burstState (wait cfg) now tn an before s"
      and time: "now \<le> eventTime e"
      and gap: "gapOk cfg s e"
      and st: "step cfg s e = Some s'"
  shows "burstState (wait cfg) (eventTime e)
           (case e of Call t a \<Rightarrow> t | Fire i t \<Rightarrow> tn)
           (case e of Call t a \<Rightarrow> a | Fire i t \<Rightarrow> an) before s'"
proof (cases e)
  case (Call t a)
  have tl: "lastCallTime s = Some tn" "tn \<le> now" using inv by (auto simp: burstState_def)
  have lt: "t - tn < wait cfg" using gap Call tl by (simp add: gapOk_def)
  have ge: "tn \<le> t" using time Call tl by simp
  have ni: "\<not> shouldInvoke cfg t s"
    using lt ge tl cfg by (simp add: shouldInvoke_def Let_def)
  from inv consider
    (pending) i d where "timerId s = Some i" "timers s = [(i, d)]" "lastArgs s = Some an"
        "invocations s = before" "d \<le> tn + max 1 (wait cfg)"
    | (fired) T where "timerId s = None" "timers s = []" "lastArgs s = None"
        "invocations s = before @ [(T, Some an)]" "tn + wait cfg \<le> T" "T \<le> now"
    by (auto simp: burstState_def)
  then show ?thesis
  proof cases
    case pending
    then show ?thesis
      using st Call ni tl ge
      by (auto simp: burstState_def debounced_def Let_def)
  next
    case fired
    then have "tn + wait cfg \<le> t" using time Call by simp
    with lt show ?thesis by simp
  qed
next
  case (Fire i t)
  have tl: "lastCallTime s = Some tn" "tn \<le> now" using inv by (auto simp: burstState_def)
  have ge: "tn \<le> t" using time Fire tl by simp
  from st Fire obtain due where due: "map_of (timers s) i = Some due" "due \<le> t"
      and s': "s' = timerExpired cfg t (s\<lparr>timers := AList.delete i (timers s)\<rparr>)"
    by (auto split: option.splits if_splits)
  from inv due(1) obtain d where p: "timerId s = Some i" "timers s = [(i, d)]" "lastArgs s = Some an"
        "invocations s = before" "d \<le> tn + max 1 (wait cfg)"
    by (auto simp: burstState_def split: if_splits)
  show ?thesis
  proof (cases "t - tn \<ge> wait cfg")
    case True
    then show ?thesis
      using s' Fire p tl ge cfg
      by (simp add: burstState_def timerExpired_def shouldInvoke_def trailingEdge_def
          invokeFunc_def Let_def)
  next
    case False
    then have r: "1 \<le> wait cfg - (t - tn)" by simp
    have "t + nodeDelay (wait cfg - (t - tn)) \<le> tn + max 1 (wait cfg)"
      using nodeDelay_le[OF r] by simp
    then show ?thesis
      using s' Fire p tl ge cfg False
      by (simp add: burstState_def timerExpired_def shouldInvoke_def remainingWait_def
          startTimer_def Let_def)
  qed
qed

lemma burst_run:
  assumes cfg: "leading cfg = False" "trailing cfg" "maxWait cfg = None"
  shows "burstState (wait cfg) now tn an before s \<Longrightarrow> pressed cfg False now s evs
         \<Longrightarrow> run cfg s evs = Some s'
         \<Longrightarrow> \<exists>now'. burstState (wait cfg) now'
                      (fst (last ((tn, an) # calls evs))) (snd (last ((tn, an) # calls evs)))
                      before s'"
proof (induction evs arbitrary: now tn an s)
  case Nil
  then show ?case by auto
next
  case (Cons e es)
  from Cons.prems(2) obtain s1 where s1: "step cfg s e = Some s1"
      and t: "now \<le> eventTime e" and g: "gapOk cfg s e"
      and rest: "pressed cfg False (eventTime e) s1 es"
    by (auto split: option.splits)
  from Cons.prems(3) s1 have r: "run cfg s1 es = Some s'" by simp
  let ?tn = "case e of Call t a \<Rightarrow> t | Fire i t \<Rightarrow> tn"
  let ?an = "case e of Call t a \<Rightarrow> a | Fire i t \<Rightarrow> an"
  have "burstState (wait cfg) (eventTime e) ?tn ?an before s1"
    by (rule burst_step[OF cfg Cons.prems(1) t g s1])
  from Cons.IH[OF this rest r]
  obtain now' where "burstState (wait cfg) now'
      (fst (last ((?tn, ?an) # calls es))) (snd (last ((?tn, ?an) # calls es))) before s'"
    by blast
  moreover have "last ((?tn, ?an) # calls es) = last ((tn, an) # calls (e # es))"
    by (cases e) auto
  ultimately show ?case by auto
qed

text \<open>
  Claim C6. Take a wrapper with \<^verbatim>\<open>leading = false\<close>, \<^verbatim>\<open>trailing = true\<close> and no \<^verbatim>\<open>maxWait\<close>
  that has nothing pending (a new wrapper, or one at rest after earlier bursts), a first
  call at \<open>t1\<close>, and any further events in the order of their times in which every call
  comes less than \<^verbatim>\<open>wait\<close> after the call before it; timeouts may fire late. Let the last
  call be at \<open>tn\<close> with arguments \<open>an\<close>. Once no timeout is pending, \<^verbatim>\<open>func\<close> has been called
  exactly once more, with \<open>an\<close>, at a time at least \<^verbatim>\<open>wait\<close> after \<open>tn\<close>. While a timeout is
  pending, \<^verbatim>\<open>func\<close> has not been called again, exactly one timeout is pending, it is due
  by \<open>tn + max 1 wait\<close>, and its firing at any time from \<open>tn + wait\<close> on calls \<^verbatim>\<open>func\<close> with
  \<open>an\<close> and leaves nothing pending.
\<close>

theorem trailing_burst_invokes_once:
  assumes cfg: "leading cfg = False" "trailing cfg" "maxWait cfg = None"
      and idle: "timerId q = None" "timers q = []"
      and pr: "pressed cfg False t1 (debounced cfg t1 a1 q) evs"
      and rn: "run cfg q (Call t1 a1 # evs) = Some s"
      and lc: "last (calls (Call t1 a1 # evs)) = (tn, an)"
  shows "(timers s = [] \<longrightarrow>
            (\<exists>T. invocations s = invocations q @ [(T, Some an)] \<and> tn + wait cfg \<le> T))
       \<and> (timers s \<noteq> [] \<longrightarrow>
            invocations s = invocations q
          \<and> (\<exists>i d. timers s = [(i, d)] \<and> d \<le> tn + max 1 (wait cfg)
                \<and> (\<forall>T. d \<le> T \<and> tn + wait cfg \<le> T \<longrightarrow>
                      (\<exists>s'. step cfg s (Fire i T) = Some s' \<and> timers s' = []
                            \<and> invocations s' = invocations q @ [(T, Some an)]))))"
proof -
  let ?s1 = "debounced cfg t1 a1 q"
  have b1: "burstState (wait cfg) t1 t1 a1 (invocations q) ?s1"
    by (rule burst_first_call[OF cfg(1) cfg(3) idle])
  have r: "run cfg ?s1 evs = Some s" using rn by simp
  have "last ((t1, a1) # calls evs) = (tn, an)" using lc by simp
  with burst_run[OF cfg b1 pr r]
  obtain now' where inv: "burstState (wait cfg) now' tn an (invocations q) s" by auto
  then have tl: "lastCallTime s = Some tn" by (simp add: burstState_def)
  from inv consider
    (pending) i d where "timerId s = Some i" "timers s = [(i, d)]" "lastArgs s = Some an"
        "invocations s = invocations q" "d \<le> tn + max 1 (wait cfg)"
    | (fired) T where "timerId s = None" "timers s = []" "lastArgs s = None"
        "invocations s = invocations q @ [(T, Some an)]" "tn + wait cfg \<le> T"
    by (auto simp: burstState_def)
  then show ?thesis
  proof cases
    case pending
    have "\<forall>T. d \<le> T \<and> tn + wait cfg \<le> T \<longrightarrow>
            (\<exists>s'. step cfg s (Fire i T) = Some s' \<and> timers s' = []
                  \<and> invocations s' = invocations q @ [(T, Some an)])"
      using pending tl cfg
      by (simp add: timerExpired_def shouldInvoke_def trailingEdge_def invokeFunc_def Let_def)
    then show ?thesis using pending by simp
  next
    case fired
    then show ?thesis by simp
  qed
qed

theorem trailing_burst_invokes_once_witness:
  "pressed (debounceConfig 100) False 0 (debounced (debounceConfig 100) 0 ''a'' newDebounce)
     [Call 20 ''b'', Call 45 ''c'', Call 70 ''d'', Call 90 ''e'', Fire 0 100, Fire 1 190]
   \<and> run (debounceConfig 100) newDebounce
       [Call 0 ''a'', Call 20 ''b'', Call 45 ''c'', Call 70 ''d'', Call 90 ''e'', Fire 0 100, Fire 1 190]
     = Some \<lparr>timerId = None, lastCallTime = Some 90, lastInvokeTime = 190,
              lastArgs = None, timers = [], nextTimer = 2,
              invocations = [(190, Some ''e'')]\<rparr>
   \<and> (\<exists>T. [(190 :: int, Some ''e'')] = [(T, Some ''e'')] \<and> 90 + 100 \<le> T)"
proof -
  let ?evs = "[Call 20 ''b'', Call 45 ''c'', Call 70 ''d'', Call 90 ''e'',
               Fire 0 100, Fire 1 190] :: string Event list"
  let ?s = "\<lparr>timerId = None, lastCallTime = Some 90, lastInvokeTime = 190,
            lastArgs = None, timers = [], nextTimer = 2,
            invocations = [(190, Some ''e'')]\<rparr> :: string DebounceState"
  have c: "leading (debounceConfig 100) = False" "trailing (debounceConfig 100)"
      "maxWait (debounceConfig 100) = None"
    by (simp_all add: debounceConfig_def)
  have i: "timerId (newDebounce :: string DebounceState) = None"
      "timers (newDebounce :: string DebounceState) = []"
    by (simp_all add: newDebounce_def)
  have p: "pressed (debounceConfig 100) False 0
             (debounced (debounceConfig 100) 0 ''a'' newDebounce) ?evs"
    by code_simp
  have r: "run (debounceConfig 100) newDebounce (Call 0 ''a'' # ?evs) = Some ?s"
    by code_simp
  have l: "last (calls (Call 0 ''a'' # ?evs)) = (90, ''e'')" by simp
  from trailing_burst_invokes_once[OF c i p r l] p r show ?thesis
    by (simp add: debounceConfig_def newDebounce_def)
qed

lemma spaced_snoc: "spaced m p (ts @ [t]) = (spaced m p ts \<and> t - last (p # ts) \<le> m)"
  by (induction ts arbitrary: p) auto

lemma spaced_span:
  "spaced m p ts \<Longrightarrow> p \<le> x \<Longrightarrow> x < last (p # ts) \<Longrightarrow> \<exists>t \<in> set ts. x \<le> t \<and> t \<le> x + m"
proof (induction ts arbitrary: p)
  case Nil
  then show ?case by simp
next
  case (Cons t ts)
  show ?case
  proof (cases "x \<le> t")
    case True
    then show ?thesis using Cons.prems by auto
  next
    case False
    then have "\<exists>u \<in> set ts. x \<le> u \<and> u \<le> x + m"
      using Cons.IH[of t] Cons.prems by auto
    then show ?thesis by auto
  qed
qed

lemma pressure_first_call:
  assumes "maxWait cfg = Some m" "1 \<le> wait cfg" "2 * wait cfg \<le> m"
  shows "pressureState m t t (debounced cfg t a newDebounce)"
  using assms nodeDelay_le[of "wait cfg"]
  by (simp add: pressureState_def debounced_def newDebounce_def shouldInvoke_def leadingEdge_def
      startTimer_def invokeFunc_def Let_def)

lemma pressure_call:
  assumes cfg: "trailing cfg" "maxWait cfg = Some m" "1 \<le> wait cfg" "2 * wait cfg \<le> m"
      and inv: "pressureState m t1 now s"
      and time: "now \<le> t"
      and gap: "gapOk cfg s (Call t a)"
      and pun: "punctual s (Call t a)"
  shows "pressureState m t1 t (debounced cfg t a s)"
proof -
  let ?L = "lastInvokeTime s"
  let ?w = "wait cfg"
  from inv obtain tl where tl: "lastCallTime s = Some tl" "tl \<le> now"
    and L: "?L \<le> now" and H: "tl - ?L < m"
    and A: "\<forall>(i, d) \<in> set (timers s). d \<le> ?L + m"
    and B: "\<forall>i. timerId s = Some i \<longrightarrow> i \<in> fst ` set (timers s)"
    and C: "timerId s = None \<longrightarrow> lastArgs s = None"
    and D: "lastArgs s = None \<longrightarrow> tl \<le> ?L"
    and E1: "spaced m t1 (map fst (invocations s))"
    and E2: "?L = last (t1 # map fst (invocations s))"
    unfolding pressureState_def by (elim exE conjE) (rule that)
  have lt: "t - tl < ?w" using gap tl by (simp add: gapOk_def)
  have ge: "tl \<le> t" using time tl by simp
  have P: "\<forall>(i, d) \<in> set (timers s). t \<le> d"
    using pun by (simp add: punctual_def list_all_iff)
  have si: "shouldInvoke cfg t s = (t - ?L \<ge> m)"
    using lt ge tl cfg by (auto simp: shouldInvoke_def Let_def)
  have nd: "nodeDelay ?w \<le> ?w" using cfg(3) by (rule nodeDelay_le)
  show ?thesis
  proof (cases "timerId s")
    case None
    then have "tl \<le> ?L" using C D by simp
    then have near: "t - ?L < ?w" using lt by simp
    then have "\<not> shouldInvoke cfg t s" using si cfg by simp
    then show ?thesis
      using None tl time L A E1 E2 near nd cfg
      by (auto simp: pressureState_def debounced_def startTimer_def Let_def)
  next
    case (Some i)
    then obtain d where "(i, d) \<in> set (timers s)" using B by auto
    then have bound: "t \<le> ?L + m" using A P by fastforce
    show ?thesis
    proof (cases "t - ?L \<ge> m")
      case True
      then show ?thesis
        using Some si tl time L A E1 E2 nd cfg bound
        by (auto simp: pressureState_def debounced_def startTimer_def invokeFunc_def Let_def
            spaced_snoc)
    next
      case False
      then show ?thesis
        using Some si tl time L A B E1 E2 cfg
        by (auto simp: pressureState_def debounced_def Let_def)
    qed
  qed
qed


lemma pressure_fire:
  assumes cfg: "trailing cfg" "maxWait cfg = Some m" "1 \<le> wait cfg" "2 * wait cfg \<le> m"
      and inv: "pressureState m t1 now s"
      and time: "now \<le> t"
      and pun: "punctual s (Fire i t)"
      and st: "step cfg s (Fire i t) = Some s'"
  shows "pressureState m t1 t s'"
proof -
  let ?L = "lastInvokeTime s"
  let ?w = "wait cfg"
  let ?s0 = "s\<lparr>timers := AList.delete i (timers s)\<rparr>"
  from inv obtain tl where tl: "lastCallTime s = Some tl" "tl \<le> now"
    and L: "?L \<le> now" and H: "tl - ?L < m"
    and A: "\<forall>(i, d) \<in> set (timers s). d \<le> ?L + m"
    and B: "\<forall>i. timerId s = Some i \<longrightarrow> i \<in> fst ` set (timers s)"
    and C: "timerId s = None \<longrightarrow> lastArgs s = None"
    and D: "lastArgs s = None \<longrightarrow> tl \<le> ?L"
    and E1: "spaced m t1 (map fst (invocations s))"
    and E2: "?L = last (t1 # map fst (invocations s))"
    unfolding pressureState_def by (elim exE conjE) (rule that)
  from st obtain due where due: "map_of (timers s) i = Some due" "due \<le> t"
      and s': "s' = timerExpired cfg t ?s0"
    by (auto split: option.splits if_splits)
  have mem: "(i, due) \<in> set (timers s)" using due(1) by (rule map_of_SomeD)
  have P: "\<forall>(i, d) \<in> set (timers s). t \<le> d"
    using pun by (simp add: punctual_def list_all_iff)
  have bound: "t \<le> ?L + m" using mem A P by fastforce
  have ge: "tl \<le> t" using time tl by simp
  have A0: "\<forall>(j, d) \<in> set (timers ?s0). d \<le> ?L + m"
    using A by (auto simp: AList.delete_eq)
  show ?thesis
  proof (cases "shouldInvoke cfg t ?s0")
    case True
    show ?thesis
    proof (cases "lastArgs s")
      case None
      then show ?thesis
        using True s' tl time L H A0 D E1 E2 ge
        by (auto simp: pressureState_def timerExpired_def trailingEdge_def Let_def)
    next
      case (Some a)
      then show ?thesis
        using True s' tl time L A0 E1 E2 ge bound cfg
        by (auto simp: pressureState_def timerExpired_def trailingEdge_def invokeFunc_def
            Let_def spaced_snoc)
    qed
  next
    case False
    then have ni: "t - tl < ?w" "t - ?L < m"
      using tl cfg by (auto simp: shouldInvoke_def Let_def)
    let ?r = "min (?w - (t - tl)) (m - (t - ?L))"
    have r1: "1 \<le> ?r" using ni by simp
    have "t + nodeDelay ?r \<le> ?L + m"
      using nodeDelay_le[OF r1] by simp
    then show ?thesis
      using False s' tl time L H A0 C D E1 E2 ge cfg
      by (auto simp: pressureState_def timerExpired_def remainingWait_def startTimer_def Let_def)
  qed
qed

lemma pressure_run:
  assumes cfg: "trailing cfg" "maxWait cfg = Some m" "1 \<le> wait cfg" "2 * wait cfg \<le> m"
  shows "pressureState m t1 now s \<Longrightarrow> pressed cfg True now s evs
         \<Longrightarrow> run cfg s evs = Some s' \<Longrightarrow> \<exists>now'. pressureState m t1 now' s'"
proof (induction evs arbitrary: now s)
  case Nil
  then show ?case by auto
next
  case (Cons e es)
  from Cons.prems(2) obtain s1 where s1: "step cfg s e = Some s1"
      and t: "now \<le> eventTime e" and g: "gapOk cfg s e" and p: "punctual s e"
      and rest: "pressed cfg True (eventTime e) s1 es"
    by (auto split: option.splits)
  from Cons.prems(3) s1 have r: "run cfg s1 es = Some s'" by simp
  have "pressureState m t1 (eventTime e) s1"
  proof (cases e)
    case (Call t a)
    then show ?thesis
      using pressure_call[OF cfg Cons.prems(1), of t a] t g p s1 by simp
  next
    case (Fire i t)
    then show ?thesis
      using pressure_fire[OF cfg Cons.prems(1), of t i s1] t p s1 by simp
  qed
  from Cons.IH[OF this rest r] show ?case .
qed

lemma run_lastCallTime:
  "run cfg s evs = Some s' \<Longrightarrow>
     lastCallTime s' = (if calls evs = [] then lastCallTime s else Some (fst (last (calls evs))))"
proof (induction evs arbitrary: s)
  case Nil
  then show ?case by simp
next
  case (Cons e es)
  then obtain s1 where s1: "step cfg s e = Some s1" "run cfg s1 es = Some s'"
    by (auto split: option.splits)
  show ?case
  proof (cases e)
    case (Call t a)
    then have "lastCallTime s1 = Some t"
      using s1(1) by (auto simp: debounced_def leadingEdge_def invokeFunc_def startTimer_def Let_def)
    then show ?thesis using Cons.IH[OF s1(2)] Call by auto
  next
    case (Fire i t)
    then have "lastCallTime s1 = lastCallTime s"
      using s1(1)
      by (auto simp: timerExpired_def trailingEdge_def invokeFunc_def startTimer_def Let_def
          split: option.splits if_splits)
    then show ?thesis using Cons.IH[OF s1(2)] Fire by auto
  qed
qed

text \<open>
  Claim C7, as the code has it. Take a wrapper with \<^verbatim>\<open>trailing = true\<close> (any \<^verbatim>\<open>leading\<close>),
  \<^verbatim>\<open>wait\<close> at least 1 and \<^verbatim>\<open>maxWait = m\<close> at least twice \<^verbatim>\<open>wait\<close>, freshly created and first
  called at \<open>t1\<close>, under calling pressure (every call less than \<^verbatim>\<open>wait\<close> after the call
  before it) and with timeouts that fire when they are due. Then every span of length
  \<open>m\<close> that lies between the first and the last call contains a call of \<^verbatim>\<open>func\<close>.
\<close>

theorem maxWait_bounds_every_span:
  assumes cfg: "trailing cfg" "maxWait cfg = Some m" "1 \<le> wait cfg" "2 * wait cfg \<le> m"
      and pr: "pressed cfg True t1 newDebounce (Call t1 a1 # evs)"
      and rn: "run cfg newDebounce (Call t1 a1 # evs) = Some s"
      and span: "t1 \<le> x" "x + m \<le> fst (last (calls (Call t1 a1 # evs)))"
  shows "\<exists>(T, a) \<in> set (invocations s). x \<le> T \<and> T \<le> x + m"
proof -
  let ?s1 = "debounced cfg t1 a1 newDebounce"
  have p1: "pressureState m t1 t1 ?s1"
    by (rule pressure_first_call[OF cfg(2) cfg(3) cfg(4)])
  have rest: "pressed cfg True t1 ?s1 evs" using pr by simp
  have r: "run cfg ?s1 evs = Some s" using rn by simp
  from pressure_run[OF cfg p1 rest r] obtain now' where inv: "pressureState m t1 now' s" ..
  have "lastCallTime s = Some (fst (last (calls (Call t1 a1 # evs))))"
    using run_lastCallTime[OF rn] by simp
  with inv have H: "fst (last (calls (Call t1 a1 # evs))) - lastInvokeTime s < m"
    and E1: "spaced m t1 (map fst (invocations s))"
    and E2: "lastInvokeTime s = last (t1 # map fst (invocations s))"
    by (auto simp: pressureState_def)
  have "x < last (t1 # map fst (invocations s))"
    using H E2 span(2) by simp
  from spaced_span[OF E1 span(1) this] show ?thesis by auto
qed


theorem maxWait_bounds_every_span_witness:
  "pressed \<lparr>wait = 10, leading = False, trailing = True, maxWait = Some 20\<rparr> True 0 newDebounce
     [Call 0 ''a'', Call 6 ''b'', Fire 0 10, Call 12 ''c'', Fire 1 16, Call 18 ''d'', Fire 2 20,
      Call 24 ''e'', Call 30 ''f'', Fire 3 34, Call 36 ''g'', Fire 4 40, Call 42 ''h'']
   \<and> run \<lparr>wait = 10, leading = False, trailing = True, maxWait = Some 20\<rparr> newDebounce
     [Call 0 ''a'', Call 6 ''b'', Fire 0 10, Call 12 ''c'', Fire 1 16, Call 18 ''d'', Fire 2 20,
      Call 24 ''e'', Call 30 ''f'', Fire 3 34, Call 36 ''g'', Fire 4 40, Call 42 ''h'']
     = Some \<lparr>timerId = Some 5, lastCallTime = Some 42, lastInvokeTime = 40,
              lastArgs = Some ''h'', timers = [(5, 52)], nextTimer = 6,
              invocations = [(20, Some ''d''), (40, Some ''g'')]\<rparr>
   \<and> (\<exists>(T, a) \<in> set [(20 :: int, Some ''d''), (40, Some ''g'')]. 22 \<le> T \<and> T \<le> 22 + 20)"
proof -
  let ?cfg = "\<lparr>wait = 10, leading = False, trailing = True, maxWait = Some 20\<rparr>"
  let ?evs = "[Call 6 ''b'', Fire 0 10, Call 12 ''c'', Fire 1 16, Call 18 ''d'', Fire 2 20,
      Call 24 ''e'', Call 30 ''f'', Fire 3 34, Call 36 ''g'', Fire 4 40, Call 42 ''h''] :: string Event list"
  let ?s = "\<lparr>timerId = Some 5, lastCallTime = Some 42, lastInvokeTime = 40,
              lastArgs = Some ''h'', timers = [(5, 52)], nextTimer = 6,
              invocations = [(20, Some ''d''), (40, Some ''g'')]\<rparr> :: string DebounceState"
  have c: "trailing ?cfg" "maxWait ?cfg = Some 20" "1 \<le> wait ?cfg" "2 * wait ?cfg \<le> 20"
    by simp_all
  have p: "pressed ?cfg True 0 newDebounce (Call 0 ''a'' # ?evs)"
    by code_simp
  have r: "run ?cfg newDebounce (Call 0 ''a'' # ?evs) = Some ?s"
    by code_simp
  have x: "(0::int) \<le> 22" "22 + 20 \<le> fst (last (calls (Call 0 ''a'' # ?evs)))"
    by simp_all
  from maxWait_bounds_every_span[OF c p r x] p r show ?thesis
    by simp
qed

text \<open>
  Claim C7 as stated fails at two inputs, both under pressure and with punctual
  timeouts. First, \<^verbatim>\<open>trailing = false\<close>, \<^verbatim>\<open>leading = false\<close>, \<^verbatim>\<open>wait = 10\<close>, \<^verbatim>\<open>maxWait = 20\<close>, calls
  every 6 ms from 0: the timeout that fires at 20, when \<^verbatim>\<open>maxWait\<close> has passed, runs
  \<^verbatim>\<open>trailingEdge\<close>, which calls \<^verbatim>\<open>func\<close> only when \<^verbatim>\<open>trailing\<close> is set; after the call at 24
  \<^verbatim>\<open>func\<close> has not been called at all. Second, the default flags with \<^verbatim>\<open>wait = 50\<close> and
  \<^verbatim>\<open>maxWait = 60\<close>, calls at 0, 40, 80 and 125: \<^verbatim>\<open>func\<close> is called at 60 and at 125, and the
  span from 61 to 121 contains no call of \<^verbatim>\<open>func\<close>, because the timeout started by the call
  at 80 is due at 130.
\<close>

theorem maxWait_not_forced_counterexample:
  "pressed \<lparr>wait = 10, leading = False, trailing = False, maxWait = Some 20\<rparr> True 0 newDebounce
     [Call 0 ''a'', Call 6 ''b'', Fire 0 10, Call 12 ''c'', Fire 1 16, Call 18 ''d'', Fire 2 20,
      Call 24 ''e'']
   \<and> run \<lparr>wait = 10, leading = False, trailing = False, maxWait = Some 20\<rparr> newDebounce
     [Call 0 ''a'', Call 6 ''b'', Fire 0 10, Call 12 ''c'', Fire 1 16, Call 18 ''d'', Fire 2 20,
      Call 24 ''e'']
     = Some \<lparr>timerId = Some 3, lastCallTime = Some 24, lastInvokeTime = 24,
              lastArgs = Some ''e'', timers = [(3, 34)], nextTimer = 4, invocations = []\<rparr>
   \<and> pressed \<lparr>wait = 50, leading = False, trailing = True, maxWait = Some 60\<rparr> True 0 newDebounce
     [Call 0 ''a'', Call 40 ''b'', Fire 0 50, Fire 1 60, Call 80 ''c'', Call 125 ''d'']
   \<and> run \<lparr>wait = 50, leading = False, trailing = True, maxWait = Some 60\<rparr> newDebounce
     [Call 0 ''a'', Call 40 ''b'', Fire 0 50, Fire 1 60, Call 80 ''c'', Call 125 ''d'']
     = Some \<lparr>timerId = Some 3, lastCallTime = Some 125, lastInvokeTime = 125,
              lastArgs = None, timers = [(2, 130), (3, 175)], nextTimer = 4,
              invocations = [(60, Some ''b''), (125, Some ''d'')]\<rparr>"
  by code_simp

text \<open>
  Claim C8. When the clock reads less than the time of the previous call,
  \<^verbatim>\<open>shouldInvoke\<close> is true. A timeout that fires at such a time runs \<^verbatim>\<open>trailingEdge\<close>: it
  starts no new timeout, clears \<^verbatim>\<open>timerId\<close> and, when \<^verbatim>\<open>trailing\<close> is set and arguments
  wait, calls \<^verbatim>\<open>func\<close> with them. A call of the wrapper at such a time takes the leading
  edge when no timeout is pending, and calls \<^verbatim>\<open>func\<close> at once when one is pending and
  \<^verbatim>\<open>maxWait\<close> is configured.
\<close>

theorem negative_elapsed_time_invokes:
  assumes "lastCallTime s = Some lastCall" "time - lastCall < 0"
  shows "shouldInvoke cfg time s
       \<and> timerExpired cfg time s = trailingEdge cfg time s
       \<and> timerId (timerExpired cfg time s) = None
       \<and> timers (timerExpired cfg time s) = timers s
       \<and> (trailing cfg \<longrightarrow>
            (\<forall>a. lastArgs s = Some a \<longrightarrow>
                 invocations (timerExpired cfg time s) = invocations s @ [(time, Some a)]))
       \<and> (timerId s = None \<longrightarrow>
            debounced cfg time args s
              = leadingEdge cfg time (s\<lparr>lastArgs := Some args, lastCallTime := Some time\<rparr>))
       \<and> (timerId s \<noteq> None \<and> maxWait cfg \<noteq> None \<longrightarrow>
            invocations (debounced cfg time args s) = invocations s @ [(time, Some args)])"
proof -
  have si: "shouldInvoke cfg time s"
    using assms by (simp add: shouldInvoke_def Let_def)
  then show ?thesis
    by (auto simp: timerExpired_def trailingEdge_def invokeFunc_def debounced_def startTimer_def
        Let_def)
qed

theorem negative_elapsed_time_invokes_witness:
  "shouldInvoke (debounceConfig 50) 90 (debounced (debounceConfig 50) 100 ''a'' newDebounce)
   \<and> timerExpired (debounceConfig 50) 90 (debounced (debounceConfig 50) 100 ''a'' newDebounce)
     = \<lparr>timerId = None, lastCallTime = Some 100, lastInvokeTime = 90, lastArgs = None,
        timers = [(0, 150)], nextTimer = 1, invocations = [(90, Some ''a'')]\<rparr>"
proof -
  let ?s = "debounced (debounceConfig 50) 100 ''a'' newDebounce"
  have l: "lastCallTime ?s = Some 100"
    by (simp add: debounced_def debounceConfig_def newDebounce_def shouldInvoke_def
        leadingEdge_def startTimer_def Let_def)
  have n: "(90::int) - 100 < 0" by simp
  have v: "timerExpired (debounceConfig 50) 90 ?s
     = \<lparr>timerId = None, lastCallTime = Some 100, lastInvokeTime = 90, lastArgs = None,
        timers = [(0, 150)], nextTimer = 1, invocations = [(90, Some ''a'')]\<rparr>"
    by code_simp
  from negative_elapsed_time_invokes[OF l n, of "debounceConfig 50" "''b''"] v
  show ?thesis by simp
qed

end
